theory Spec2Isabelle
  imports Complex_Main "HOL-Library.Word"
begin

unbundle bit_operations_syntax

section \<open>The metronome engine of \<open>src/windows/metronome.cpp\<close>\<close>

text \<open>
  The engine is the C++ class \<open>Metronome\<close>. Its fields become a record, each member
  function a HOL function that takes the engine state and returns the new one. A member
  function that can throw returns the exception (if any) beside the state it leaves
  behind, so that what a failed call has changed stays visible.

  The producer thread and the device callback run concurrently with the caller in the
  source. Here each member function, one iteration of the producer loop (\<open>PlaySound\<close>)
  and one device callback (\<open>WaveOutProc\<close>) is one atomic step; an execution is a
  sequence of such steps. Data races inside a member function are outside this model.
\<close>

subsection \<open>Values\<close>

type_synonym byte = "8 word"      \<comment> \<open>\<open>uint8_t\<close>\<close>
type_synonym sample = "16 word"   \<comment> \<open>\<open>int16_t\<close>, read with \<open>sint\<close>\<close>
type_synonym dword = "32 word"    \<comment> \<open>\<open>DWORD\<close>\<close>

text \<open>
  An \<open>std::invalid_argument\<close> carries its message, the \<open>std::runtime_error\<close> of
  the device the status code its message ends with. \<open>LengthError\<close> is
  the \<open>std::length_error\<close> of \<open>std::vector::resize\<close>, \<open>BadArrayNewLength\<close> the
  exception of \<open>new[]\<close> with a negative size, \<open>Terminate\<close> the call of
  \<open>std::terminate\<close> when a joinable \<open>std::thread\<close> is assigned to, and
  \<open>Undefined\<close> stands for behaviour the language leaves undefined (signed overflow,
  a conversion out of range, a division by zero, an access out of bounds).
\<close>

datatype error =
    InvalidArgument string
  | RuntimeError nat
  | LengthError
  | BadArrayNewLength
  | Terminate
  | Undefined

text \<open>
  The output device and the tick sink are opaque to the engine. The device is
  represented by the trace of the calls the engine makes on it, the sink by the list of
  the beat indices delivered to it.
\<close>

datatype devcall =
    WaveOutRestart
  | WaveOutBreakLoop
  | WaveOutReset
  | WaveOutSetVolume dword
  | WaveOutWrite "sample list"
  | WaveOutClose

datatype wavemsg = WOM_OPEN | WOM_DONE | WOM_CLOSE

text \<open>
  Modelled from the spec: the header \<open>metronome.h\<close>, which declares the fields and
  their initial values, is not among the sources. The \<open>int\<close> and \<open>double\<close> fields are
  the ones the constructor initialises from its \<open>int\<close> and \<open>double\<close> parameters;
  \<open>beatLength\<close> and \<open>currentTick\<close> are used as \<open>int\<close>; the two cursors are the
  spec's unbounded sample counters. A \<open>double\<close> is represented by the real number it
  denotes (infinities and NaN are not represented). \<open>hWaveOut\<close> and
  \<open>eventTickSink\<close> record whether the handle, respectively the pointer, is non-null;
  \<open>metronomeThread\<close> whether the thread object is joinable. \<open>spawned\<close> counts the
  producer threads started so far.
\<close>

record metronome =
  audioBpm :: int
  audioTimeSignature :: int
  audioVolume :: real
  sampleRate :: int
  mainSound :: "sample list"
  accentedSound :: "sample list"
  audioBuffer :: "sample list"
  beatLength :: int
  writeCursor :: int
  playCursor :: int
  currentTick :: int
  playing :: bool
  hWaveOut :: bool
  eventTickSink :: bool
  metronomeThread :: bool
  spawned :: nat
  deviceCalls :: "devcall list"
  notified :: "int list"

subsection \<open>Machine arithmetic\<close>

definition INT_MAX :: int where
  "INT_MAX = 2147483647"

definition INT_MIN :: int where
  "INT_MIN = - 2147483648"

text \<open>C++ division truncates towards zero.\<close>

definition trunc_div :: "int \<Rightarrow> int \<Rightarrow> int" where
  "trunc_div a b = sgn a * sgn b * (\<bar>a\<bar> div \<bar>b\<bar>)"

text \<open>
  \<open>static_cast<int>(num / den)\<close> for a quotient of two doubles that hold the integers
  \<open>num\<close> and \<open>den\<close>: the conversion drops the fraction and is undefined when the
  quotient is infinite, NaN or outside the range of \<open>int\<close>. For \<open>\<bar>num\<bar>\<close> below
  \<open>2^52\<close> and \<open>\<bar>den\<bar>\<close> below \<open>2^31\<close> a quotient that is not an integer is
  further from the next integer than half a unit in the last place, so rounding the
  quotient to a double does not change its integer part.
\<close>

definition double_quot_to_int :: "int \<Rightarrow> int \<Rightarrow> error + int" where
  "double_quot_to_int num den =
     (if den = 0 then Inl Undefined
      else let q = trunc_div num den
           in if INT_MIN \<le> q \<and> q \<le> INT_MAX then Inr q else Inl Undefined)"

text \<open>Multiplication of two \<open>int\<close>: signed overflow is undefined.\<close>

definition int_mul :: "int \<Rightarrow> int \<Rightarrow> error + int" where
  "int_mul a b = (if INT_MIN \<le> a * b \<and> a * b \<le> INT_MAX then Inr (a * b) else Inl Undefined)"

subsection \<open>Sample conversion\<close>

text \<open>
  \<open>std::memcpy\<close> of the bytes into a vector of \<open>int16_t\<close> of half the length. The
  Windows targets are little-endian: the byte at the lower address is the low byte.
\<close>

fun memcpy_int16 :: "byte list \<Rightarrow> sample list" where
  "memcpy_int16 (lo # hi # rest) = (ucast lo OR push_bit 8 (ucast hi)) # memcpy_int16 rest"
| "memcpy_int16 _ = []"

definition byteArrayToShortArray :: "byte list \<Rightarrow> error + sample list" where
  "byteArrayToShortArray byteArray =
     (if byteArray = [] \<or> length byteArray mod 2 \<noteq> 0
      then Inl (InvalidArgument ''Invalid byte array length for PCM_16BIT'')
      else Inr (memcpy_int16 byteArray))"

text \<open>The two bytes of a sample, low byte first.\<close>

definition sample_bytes :: "sample \<Rightarrow> byte list" where
  "sample_bytes s = [ucast s, ucast (drop_bit 8 s)]"

subsection \<open>Volume\<close>

text \<open>
  The product \<open>0xFFFF * volume\<close> is a product of doubles: the exact product rounded
  to the nearest double, ties to the even significand (IEEE 754 binary64, the default
  rounding). A finite double is represented by the real number it denotes.

  \<open>ilog2 n\<close> is the position of the highest bit of \<open>n\<close>. \<open>double_exponent x\<close> is the
  exponent \<open>e\<close> of the binade of \<open>x\<close>, \<open>2^e \<le> \<bar>x\<bar> < 2^(e+1)\<close>, and the least
  exponent \<open>-1022\<close> for zero and the subnormal range. The doubles of that binade are
  the multiples of \<open>2^(e-52)\<close>; \<open>double_round\<close> takes the nearest one. Overflow to
  infinity (beyond \<open>2^1024\<close>) is not represented.
\<close>

fun ilog2 :: "nat \<Rightarrow> nat" where
  "ilog2 n = (if n < 2 then 0 else Suc (ilog2 (n div 2)))"

declare ilog2.simps [simp del]

definition double_exponent :: "real \<Rightarrow> int" where
  "double_exponent x =
     (if 1 \<le> \<bar>x\<bar> then int (ilog2 (nat \<lfloor>\<bar>x\<bar>\<rfloor>))
      else if x = 0 then - 1022
      else max (- int (ilog2 (nat (\<lceil>1 / \<bar>x\<bar>\<rceil> - 1))) - 1) (- 1022))"

text \<open>Rounding to the nearest integer, a tie to the even one.\<close>

definition round_even :: "real \<Rightarrow> int" where
  "round_even m =
     (let f = \<lfloor>m\<rfloor>; r = m - real_of_int f
      in if r < 1 / 2 then f else if 1 / 2 < r then f + 1 else if even f then f else f + 1)"

definition double_round :: "real \<Rightarrow> real" where
  "double_round x =
     (let q = 52 - double_exponent x
      in if 0 \<le> q then real_of_int (round_even (x * 2 ^ nat q)) / 2 ^ nat q
         else real_of_int (round_even (x / 2 ^ nat (- q))) * 2 ^ nat (- q))"

definition double_mul :: "real \<Rightarrow> real \<Rightarrow> real" where
  "double_mul a b = double_round (a * b)"

text \<open>
  \<open>static_cast<DWORD>(0xFFFF * volume)\<close>: the conversion drops the fraction of the
  rounded product. For a volume between 0 and 1 the product is between 0 and 65535.
\<close>

definition volume_dword :: "real \<Rightarrow> dword" where
  "volume_dword volume = word_of_int \<lfloor>double_mul 65535 volume\<rfloor>"

definition SetVolume :: "real \<Rightarrow> metronome \<Rightarrow> error option \<times> metronome" where
  "SetVolume volume st =
     (if volume < 0 \<or> volume > 1
      then (Some (InvalidArgument ''Volume must be between 0.0 and 1.0''), st)
      else
        let st1 = st\<lparr>audioVolume := volume\<rparr>
        in if hWaveOut st1
           then let vol = volume_dword volume
                in (None, st1\<lparr>deviceCalls :=
                      deviceCalls st1 @ [WaveOutSetVolume (vol OR push_bit 16 vol)]\<rparr>)
           else (None, st1))"

subsection \<open>Building the bar buffer\<close>

text \<open>
  \<open>bufferBar.resize(n, 0)\<close> on the empty vector, with \<open>n\<close> an \<open>int\<close>: a negative
  \<open>n\<close> converts to a size beyond \<open>max_size()\<close> and the call throws.
\<close>

definition resize :: "int \<Rightarrow> error + sample list" where
  "resize n = (if n < 0 then Inl LengthError else Inr (replicate (nat n) 0))"

text \<open>
  \<open>std::copy_n(src.begin(), n, dst.begin() + off)\<close>: nothing is copied for \<open>n \<le> 0\<close>;
  reading or writing beyond the end of a vector is undefined.
\<close>

definition copy_n :: "sample list \<Rightarrow> int \<Rightarrow> sample list \<Rightarrow> int \<Rightarrow> error + sample list" where
  "copy_n src n dst off =
     (if n \<le> 0 then Inr dst
      else if off < 0 \<or> int (length src) < n \<or> int (length dst) < off + n then Inl Undefined
      else Inr (take (nat off) dst @ take (nat n) src @ drop (nat (off + n)) dst))"

text \<open>The \<open>for\<close> loop of \<open>generateBuffer\<close>, from beat \<open>i\<close> on.\<close>

function generateBuffer_loop ::
  "metronome \<Rightarrow> int \<Rightarrow> int \<Rightarrow> int \<Rightarrow> sample list \<Rightarrow> error + sample list" where
  "generateBuffer_loop st newBeatLength beats i bufferBar =
     (if i < beats then
        let sound = (if i = 0 then accentedSound st else mainSound st);
            copyLength = min newBeatLength (int (length sound))
        in case copy_n sound copyLength bufferBar (i * newBeatLength) of
             Inl e \<Rightarrow> Inl e
           | Inr bufferBar' \<Rightarrow> generateBuffer_loop st newBeatLength beats (i + 1) bufferBar'
      else Inr bufferBar)"
  by pat_completeness auto
termination
  by (relation "measure (\<lambda>(st, newBeatLength, beats, i, bufferBar). nat (beats - i))") auto

declare generateBuffer_loop.simps [simp del]

text \<open>
  \<open>generateBuffer\<close> returns the bar buffer and sets \<open>beatLength\<close>; the caller stores
  the buffer. An exception leaves the engine as it was. The offsets \<open>i * newBeatLength\<close>
  of the loop stay below the bar length, whose product has been checked. A waveform is
  taken to hold fewer than \<open>2^31\<close> samples, so that \<open>static_cast<int>(sound.size())\<close>
  is its size.
\<close>

definition generateBuffer :: "metronome \<Rightarrow> error + (sample list \<times> metronome)" where
  "generateBuffer st =
     (case double_quot_to_int (sampleRate st * 60) (audioBpm st) of
        Inl e \<Rightarrow> Inl e
      | Inr newBeatLength \<Rightarrow>
          (case
             (if audioTimeSignature st < 2 then
                (case resize newBeatLength of
                   Inl e \<Rightarrow> Inl e
                 | Inr bufferBar \<Rightarrow>
                     copy_n (mainSound st)
                       (min newBeatLength (int (length (mainSound st)))) bufferBar 0)
              else
                (let beats = max 1 (audioTimeSignature st)
                 in case int_mul newBeatLength beats of
                      Inl e \<Rightarrow> Inl e
                    | Inr barLength \<Rightarrow>
                        (case resize barLength of
                           Inl e \<Rightarrow> Inl e
                         | Inr bufferBar \<Rightarrow>
                             generateBuffer_loop st newBeatLength beats 0 bufferBar)))
           of
             Inl e \<Rightarrow> Inl e
           | Inr bufferBar \<Rightarrow> Inr (bufferBar, st\<lparr>beatLength := newBeatLength\<rparr>)))"

text \<open>
  The result in closed form, as the spec describes it: the slot of one beat is the
  waveform cut to the beat length, followed by silence up to the beat length.
\<close>

definition beat_slot :: "int \<Rightarrow> sample list \<Rightarrow> sample list" where
  "beat_slot beatLen sound = take (nat beatLen) sound @ replicate (nat beatLen - length sound) 0"

definition beat_source :: "sample list \<Rightarrow> sample list \<Rightarrow> nat \<Rightarrow> sample list" where
  "beat_source accented main i = (if i = 0 then accented else main)"

text \<open>The slots of the beats \<open>i\<close> up to \<open>n\<close>, one after the other.\<close>

definition bar_slots :: "sample list \<Rightarrow> sample list \<Rightarrow> int \<Rightarrow> nat \<Rightarrow> nat \<Rightarrow> sample list" where
  "bar_slots accented main beatLen i n =
     concat (map (\<lambda>k. beat_slot beatLen (beat_source accented main k)) [i..<n])"

subsection \<open>The control surface\<close>

definition IsPlaying :: "metronome \<Rightarrow> bool" where
  "IsPlaying st = playing st"

definition EnableTickCallback :: "bool \<Rightarrow> metronome \<Rightarrow> metronome" where
  "EnableTickCallback eventSink st = st\<lparr>eventTickSink := eventSink\<rparr>"

text \<open>
  \<open>Play\<close>: \<open>playing.exchange(true)\<close> sets the flag before the buffer is built, so an
  exception of \<open>generateBuffer\<close> leaves the flag set.
\<close>

definition Play :: "metronome \<Rightarrow> error option \<times> metronome" where
  "Play st =
     (if \<not> playing st then
        let st1 = st\<lparr>playing := True\<rparr>
        in case generateBuffer st1 of
             Inl e \<Rightarrow> (Some e, st1)
           | Inr (bufferBar, st2) \<Rightarrow>
               let st3 = st2\<lparr>audioBuffer := bufferBar\<rparr>;
                   st4 = (if hWaveOut st3
                          then st3\<lparr>deviceCalls := deviceCalls st3 @ [WaveOutRestart]\<rparr>
                          else st3)
               in if metronomeThread st4 then (Some Terminate, st4)
                  else (None, st4\<lparr>metronomeThread := True, spawned := Suc (spawned st4)\<rparr>)
      else (None, st))"

definition Pause :: "metronome \<Rightarrow> metronome" where
  "Pause st =
     (if playing st then
        let st1 = st\<lparr>playing := False\<rparr>;
            st2 = (if hWaveOut st1
                   then st1\<lparr>deviceCalls := deviceCalls st1 @ [WaveOutBreakLoop]\<rparr>
                   else st1);
            st3 = st2\<lparr>currentTick := 0, playCursor := 0, writeCursor := 0\<rparr>
        in if metronomeThread st3 then st3\<lparr>metronomeThread := False\<rparr> else st3
      else st)"

definition Stop :: "metronome \<Rightarrow> metronome" where
  "Stop st =
     (if playing st then
        let st1 = st\<lparr>playing := False\<rparr>;
            st2 = (if hWaveOut st1
                   then st1\<lparr>deviceCalls := deviceCalls st1 @ [WaveOutReset]\<rparr>
                   else st1)
        in if metronomeThread st2 then st2\<lparr>metronomeThread := False\<rparr> else st2
      else st)"

definition SetBPM :: "int \<Rightarrow> metronome \<Rightarrow> error option \<times> metronome" where
  "SetBPM bpm st =
     (if audioBpm st \<noteq> bpm then
        let wasPlaying = IsPlaying st;
            st1 = (if wasPlaying then Pause st else st);
            st2 = st1\<lparr>audioBpm := bpm\<rparr>
        in if wasPlaying then Play st2 else (None, st2)
      else (None, st))"

definition SetTimeSignature :: "int \<Rightarrow> metronome \<Rightarrow> error option \<times> metronome" where
  "SetTimeSignature timeSignature st =
     (if audioTimeSignature st \<noteq> timeSignature then
        let wasPlaying = IsPlaying st;
            st1 = (if wasPlaying then Pause st else st);
            st2 = st1\<lparr>audioTimeSignature := timeSignature\<rparr>
        in if wasPlaying then Play st2 else (None, st2)
      else (None, st))"

definition SetAudioFile :: "byte list \<Rightarrow> byte list \<Rightarrow> metronome \<Rightarrow> error option \<times> metronome" where
  "SetAudioFile mainFileBytes accentedFileBytes st =
     (if mainFileBytes \<noteq> [] \<or> accentedFileBytes \<noteq> [] then
        let wasPlaying = IsPlaying st;
            st1 = (if wasPlaying then Pause st else st)
        in case (if mainFileBytes \<noteq> []
                 then map_sum id (\<lambda>s. st1\<lparr>mainSound := s\<rparr>) (byteArrayToShortArray mainFileBytes)
                 else Inr st1) of
             Inl e \<Rightarrow> (Some e, st1)
           | Inr st2 \<Rightarrow>
               (case (if accentedFileBytes \<noteq> []
                      then map_sum id (\<lambda>s. st2\<lparr>accentedSound := s\<rparr>)
                             (byteArrayToShortArray accentedFileBytes)
                      else Inr st2) of
                  Inl e \<Rightarrow> (Some e, st2)
                | Inr st3 \<Rightarrow> if wasPlaying then Play st3 else (None, st3))
      else (None, st))"

definition Destroy :: "metronome \<Rightarrow> metronome" where
  "Destroy st =
     (let st1 = Stop st
      in if hWaveOut st1
         then st1\<lparr>deviceCalls := deviceCalls st1 @ [WaveOutClose], hWaveOut := False\<rparr>
         else st1)"

subsection \<open>Construction\<close>

definition MMSYSERR_NOERROR :: nat where
  "MMSYSERR_NOERROR = 0"

text \<open>
  \<open>result\<close> is what \<open>waveOutOpen\<close> returns; on success the handle is set.
  \<open>sampleRate * 2\<close> is a product of two \<open>int\<close>.
\<close>

definition InitializeAudio :: "nat \<Rightarrow> metronome \<Rightarrow> error option \<times> metronome" where
  "InitializeAudio result st =
     (case int_mul (sampleRate st) 2 of
        Inl e \<Rightarrow> (Some e, st)
      | Inr nAvgBytesPerSec \<Rightarrow>
          if result \<noteq> MMSYSERR_NOERROR then (Some (RuntimeError result), st)
          else SetVolume (audioVolume st) (st\<lparr>hWaveOut := True\<rparr>))"

text \<open>
  Modelled from the spec: the initial values of the fields the constructor does not
  set are in the missing header; the cursors and the beat index start at 0, the engine
  is stopped, no sink is registered and no thread runs.
\<close>

definition Metronome ::
  "byte list \<Rightarrow> byte list \<Rightarrow> int \<Rightarrow> int \<Rightarrow> real \<Rightarrow> int \<Rightarrow> nat \<Rightarrow> error + metronome" where
  "Metronome mainFileBytes accentedFileBytes bpm timeSignature volume rate result =
     (if mainFileBytes = [] then Inl (InvalidArgument ''Main sound file cannot be empty'')
      else case byteArrayToShortArray mainFileBytes of
        Inl e \<Rightarrow> Inl e
      | Inr main \<Rightarrow>
          (case (if accentedFileBytes = [] then Inr main
                 else byteArrayToShortArray accentedFileBytes) of
             Inl e \<Rightarrow> Inl e
           | Inr accented \<Rightarrow>
               (case InitializeAudio result
                       \<lparr>audioBpm = bpm, audioTimeSignature = timeSignature,
                        audioVolume = volume, sampleRate = rate,
                        mainSound = main, accentedSound = accented, audioBuffer = [],
                        beatLength = 0, writeCursor = 0, playCursor = 0, currentTick = 0,
                        playing = False, hWaveOut = False, eventTickSink = False,
                        metronomeThread = False, spawned = 0,
                        deviceCalls = [], notified = []\<rparr> of
                  (Some e, st1) \<Rightarrow> Inl e
                | (None, st1) \<Rightarrow>
                    (case generateBuffer st1 of
                       Inl e \<Rightarrow> Inl e
                     | Inr (bufferBar, st2) \<Rightarrow> Inr (st2\<lparr>audioBuffer := bufferBar\<rparr>)))))"

subsection \<open>The completion handler and the producer\<close>

definition OnBufferDone :: "metronome \<Rightarrow> metronome" where
  "OnBufferDone st =
     (let st1 = st\<lparr>playCursor := playCursor st + beatLength st\<rparr>
      in if eventTickSink st1 then
           let st2 =
                 (if audioTimeSignature st1 < 2 then st1\<lparr>currentTick := 0\<rparr>
                  else
                    let st' = st1\<lparr>currentTick := currentTick st1 + 1\<rparr>
                    in if currentTick st' \<ge> audioTimeSignature st'
                       then st'\<lparr>currentTick := 0\<rparr> else st')
           in st2\<lparr>notified := notified st2 @ [currentTick st2]\<rparr>
         else st1)"

definition WaveOutProc :: "wavemsg \<Rightarrow> metronome \<Rightarrow> metronome" where
  "WaveOutProc uMsg st =
     (if uMsg = WOM_DONE then (if playing st then OnBufferDone st else st) else st)"

text \<open>
  One iteration of the producer loop. \<open>prepared\<close> and \<open>written\<close> say whether
  \<open>waveOutPrepareHeader\<close> and \<open>waveOutWrite\<close> succeed. The fragment is cut from the
  bar buffer at \<open>writeCursor\<close> modulo its size and wraps to the start of the buffer.
\<close>

definition PlaySound :: "bool \<Rightarrow> bool \<Rightarrow> metronome \<Rightarrow> error option \<times> metronome" where
  "PlaySound prepared written st =
     (if \<not> IsPlaying st then (None, st)
      else if beatLength st < 0 then (Some BadArrayNewLength, st)
      else if audioBuffer st = [] then (Some Undefined, st)
      else
        let bufferSize = int (length (audioBuffer st));
            startPos = writeCursor st mod bufferSize;
            copySize = min (beatLength st) (bufferSize - startPos);
            rest = beatLength st - copySize
        in if bufferSize < rest then (Some Undefined, st)
           else
             let buffer = take (nat copySize) (drop (nat startPos) (audioBuffer st))
                          @ (if copySize < beatLength st then take (nat rest) (audioBuffer st)
                             else []);
                 st1 = st\<lparr>writeCursor := writeCursor st + beatLength st\<rparr>
             in if prepared \<and> written
                then (None, st1\<lparr>deviceCalls := deviceCalls st1 @ [WaveOutWrite buffer]\<rparr>)
                else (None, st1))"

text \<open>\<open>n\<close> fragment completions in a row.\<close>

primrec completions :: "nat \<Rightarrow> metronome \<Rightarrow> metronome" where
  "completions 0 st = st"
| "completions (Suc n) st = completions n (WaveOutProc WOM_DONE st)"

subsection \<open>The range of the beat index\<close>

text \<open>
  The beat index is within the bar (0 for a signature below 2), and it is 0 whenever the
  engine is not playing.
\<close>

definition tick_in_range :: "metronome \<Rightarrow> bool" where
  "tick_in_range st =
     ((if 2 \<le> audioTimeSignature st
       then 0 \<le> currentTick st \<and> currentTick st < audioTimeSignature st
       else currentTick st = 0)
      \<and> (playing st \<or> currentTick st = 0))"

subsection \<open>Example engines\<close>

text \<open>
  The engine that the constructor builds from the main sound bytes \<open>01 00\<close>, the
  accent bytes \<open>02 00\<close>, 120 beats per minute, four beats per bar, volume one half and
  44100 samples per second, when the device opens.
\<close>

definition example_engine :: metronome where
  "example_engine =
     \<lparr>audioBpm = 120, audioTimeSignature = 4, audioVolume = 1 / 2, sampleRate = 44100,
      mainSound = [1], accentedSound = [2],
      audioBuffer = bar_slots [2] [1] 22050 0 4,
      beatLength = 22050, writeCursor = 0, playCursor = 0, currentTick = 0,
      playing = False, hWaveOut = True, eventTickSink = False,
      metronomeThread = False, spawned = 0,
      deviceCalls = [WaveOutSetVolume 2147450879], notified = []\<rparr>"

text \<open>
  The example engine after \<open>EnableTickCallback\<close> (with a sink, or with a null
  pointer) and \<open>Play\<close>.
\<close>

definition started_engine :: "bool \<Rightarrow> metronome" where
  "started_engine sink = snd (Play (EnableTickCallback sink example_engine))"

text \<open>
  The started engine with a sink, after the producer has submitted the first fragment
  and the device has reported it done.
\<close>

definition played_engine :: metronome where
  "played_engine = WaveOutProc WOM_DONE (snd (PlaySound True True (started_engine True)))"

text \<open>
  The started engine with a sink after three completions, \<open>Stop\<close>,
  \<open>SetTimeSignature(3)\<close> on the stopped engine and \<open>Play\<close>.
\<close>

definition restarted_engine :: metronome where
  "restarted_engine =
     snd (Play (snd (SetTimeSignature 3 (Stop (completions 3 (started_engine True))))))"

text \<open>A small stopped engine: two samples per beat, two beats per bar.\<close>

definition small_engine :: metronome where
  "small_engine =
     \<lparr>audioBpm = 60, audioTimeSignature = 2, audioVolume = 1, sampleRate = 2,
      mainSound = [1], accentedSound = [3, 4, 5],
      audioBuffer = [3, 4, 1, 0],
      beatLength = 2, writeCursor = 0, playCursor = 0, currentTick = 0,
      playing = False, hWaveOut = True, eventTickSink = False,
      metronomeThread = False, spawned = 0,
      deviceCalls = [WaveOutSetVolume 4294967295], notified = []\<rparr>"

section \<open>Properties\<close>

subsection \<open>Bytes and samples\<close>

lemma low_byte: "ucast (ucast (lo::byte) OR push_bit 8 (ucast (hi::byte)) :: sample) = lo"
  by (rule bit_word_eqI) (auto simp add: bit_simps)

lemma high_byte: "ucast (drop_bit 8 (ucast (lo::byte) :: sample) OR drop_bit 8 (push_bit 8 (ucast (hi::byte)))) = hi"
  by (rule bit_word_eqI) (auto simp add: bit_simps dest: bit_imp_le_length)

lemma length_memcpy_int16: "length (memcpy_int16 x) = length x div 2"
  by (induction x rule: memcpy_int16.induct) simp_all

lemma nth_memcpy_int16:
  "i < length x div 2 \<Longrightarrow>
   memcpy_int16 x ! i = ucast (x ! (2 * i)) OR push_bit 8 (ucast (x ! (2 * i + 1)))"
proof (induction x arbitrary: i rule: memcpy_int16.induct)
  case (1 lo hi rest)
  then show ?case by (cases i) simp_all
qed simp_all

lemma bytes_memcpy_int16:
  "even (length x) \<Longrightarrow> concat (map sample_bytes (memcpy_int16 x)) = x"
  by (induction x rule: memcpy_int16.induct) (simp_all add: sample_bytes_def low_byte high_byte)

text \<open>
  C9, as amended. For every non-empty byte array of even length,
  \<open>byteArrayToShortArray\<close> returns a sample array of half the length whose sample
  \<open>i\<close> is the little-endian combination of the bytes \<open>2i\<close> and \<open>2i+1\<close>, and
  writing the samples back as bytes, low byte first, gives the input again.
\<close>

theorem byteArrayToShortArray_samples:
  assumes "x \<noteq> []" and "even (length x)"
  shows "\<exists>ys. byteArrayToShortArray x = Inr ys \<and> length ys = length x div 2 \<and>
     (\<forall>i < length ys. ys ! i = ucast (x ! (2 * i)) OR push_bit 8 (ucast (x ! (2 * i + 1)))) \<and>
     concat (map sample_bytes ys) = x"
  using assms
  by (simp add: byteArrayToShortArray_def length_memcpy_int16 nth_memcpy_int16
      bytes_memcpy_int16 even_iff_mod_2_eq_zero)

theorem byteArrayToShortArray_samples_witness:
  "[0x34, 0x12, 0xFE, 0xFF] \<noteq> ([] :: byte list) \<and>
   even (length [0x34, 0x12, 0xFE, 0xFF :: byte]) \<and>
   byteArrayToShortArray [0x34, 0x12, 0xFE, 0xFF] = Inr [0x1234, 0xFFFE] \<and>
   concat (map sample_bytes [0x1234, 0xFFFE]) = [0x34, 0x12, 0xFE, 0xFF]"
  using byteArrayToShortArray_samples [of "[0x34, 0x12, 0xFE, 0xFF]"]
  by (simp add: byteArrayToShortArray_def sample_bytes_def)

text \<open>
  The empty byte array has even length, and the conversion rejects it: the claim as
  stated, for any even-length input, fails there.
\<close>

theorem byteArrayToShortArray_empty:
  "even (length ([] :: byte list)) \<and>
   byteArrayToShortArray [] = Inl (InvalidArgument ''Invalid byte array length for PCM_16BIT'')"
  by (simp add: byteArrayToShortArray_def)

subsection \<open>Volume\<close>

text \<open>
  The exponent is the one of the binade, the rounded value of a number below \<open>2^53\<close>
  lies between the integers next to it, and so does the level sent to the device.
\<close>

lemma ilog2_bounds: "0 < n \<Longrightarrow> 2 ^ ilog2 n \<le> n \<and> n < 2 ^ Suc (ilog2 n)"
proof (induction n rule: ilog2.induct)
  case (1 n)
  show ?case
  proof (cases "n < 2")
    case True
    with "1.prems" show ?thesis by (simp add: ilog2.simps)
  next
    case False
    then have "0 < n div 2" by simp
    with "1.IH" False have "2 ^ ilog2 (n div 2) \<le> n div 2" "n div 2 < 2 ^ Suc (ilog2 (n div 2))"
      by simp_all
    then have "2 * 2 ^ ilog2 (n div 2) \<le> n" "n < 2 * 2 ^ Suc (ilog2 (n div 2))"
      by linarith+
    with False show ?thesis by (subst (1 2) ilog2.simps) simp
  qed
qed

lemma double_exponent_bounds:
  assumes "1 / 2 ^ 1022 \<le> \<bar>x\<bar>"
  shows "2 powi double_exponent x \<le> \<bar>x\<bar> \<and> \<bar>x\<bar> < 2 powi (double_exponent x + 1)"
proof (cases "1 \<le> \<bar>x\<bar>")
  case True
  let ?n = "nat \<lfloor>\<bar>x\<bar>\<rfloor>"
  have n: "0 < ?n" using True by simp
  have e: "double_exponent x = int (ilog2 ?n)" using True by (simp add: double_exponent_def)
  from ilog2_bounds [OF n] have a: "2 ^ ilog2 ?n \<le> ?n" and b: "?n < 2 ^ Suc (ilog2 ?n)" by simp_all
  have "real ?n \<le> \<bar>x\<bar>" using True by simp
  moreover have "(2::real) ^ ilog2 ?n \<le> real ?n" using a by (metis of_nat_le_iff of_nat_numeral of_nat_power)
  ultimately have lo: "(2::real) ^ ilog2 ?n \<le> \<bar>x\<bar>" by linarith
  have "Suc ?n \<le> 2 ^ Suc (ilog2 ?n)" using b by simp
  then have "real (Suc ?n) \<le> 2 ^ Suc (ilog2 ?n)" by (metis of_nat_le_iff of_nat_numeral of_nat_power)
  moreover have "\<bar>x\<bar> < real (Suc ?n)" using True by simp linarith
  ultimately have hi: "\<bar>x\<bar> < 2 ^ Suc (ilog2 ?n)" by linarith
  have "int (ilog2 ?n) + 1 = int (Suc (ilog2 ?n))" by simp
  then show ?thesis unfolding e using lo hi by (simp only: power_int_of_nat)
next
  case False
  have x0: "x \<noteq> 0" "0 < \<bar>x\<bar>" using assms
    by (metis abs_zero divide_pos_pos less_numeral_extra(1) not_le zero_less_numeral zero_less_power,
        metis divide_pos_pos less_le_trans less_numeral_extra(1) zero_less_numeral zero_less_power)
  define y where "y = 1 / \<bar>x\<bar>"
  have y: "1 < y" using False x0 by (simp add: y_def)
  let ?m = "nat (\<lceil>y\<rceil> - 1)"
  define k where "k = ilog2 ?m"
  have "2 \<le> \<lceil>y\<rceil>" using y by linarith
  then have m: "0 < ?m" by simp
  from ilog2_bounds [OF m] have a: "2 ^ k \<le> ?m" and b: "?m < 2 ^ Suc k" by (simp_all add: k_def)
  have "real ?m < y" using \<open>2 \<le> \<lceil>y\<rceil>\<close> by simp linarith
  moreover have "(2::real) ^ k \<le> real ?m" using a by (metis of_nat_le_iff of_nat_numeral of_nat_power)
  ultimately have ylo: "2 ^ k < y" by linarith
  have "Suc ?m \<le> 2 ^ Suc k" using b by simp
  then have "real (Suc ?m) \<le> 2 ^ Suc k" by (metis of_nat_le_iff of_nat_numeral of_nat_power)
  moreover have "y \<le> real (Suc ?m)" using \<open>2 \<le> \<lceil>y\<rceil>\<close> by simp
  ultimately have yhi: "y \<le> 2 ^ Suc k" by linarith
  have xhi: "\<bar>x\<bar> < 1 / 2 ^ k"
  proof -
    have "1 / y < 1 / 2 ^ k" using ylo by (simp add: frac_less2)
    then show ?thesis using x0 by (simp add: y_def)
  qed
  have xlo: "1 / 2 ^ Suc k \<le> \<bar>x\<bar>"
  proof -
    have "1 / 2 ^ Suc k \<le> 1 / y" using yhi y by (intro divide_left_mono) simp_all
    then show ?thesis using x0 by (simp add: y_def)
  qed
  have "(1::real) / 2 ^ 1022 < 1 / 2 ^ k" using assms xhi by linarith
  then have "(2::real) ^ k < 2 ^ 1022" by (simp add: field_simps)
  then have k: "k < 1022" by (rule power_less_imp_less_exp [rotated]) simp
  have e: "double_exponent x = - int (Suc k)"
    using False x0 k by (simp add: double_exponent_def y_def [symmetric] k_def [symmetric])
  have p1: "(2::real) powi (- int (Suc k)) = 1 / 2 ^ Suc k"
    by (simp only: power_int_minus power_int_of_nat) (simp add: field_simps)
  have p2: "(2::real) powi (- int (Suc k) + 1) = 1 / 2 ^ k"
  proof -
    have "- int (Suc k) + 1 = - int k" by simp
    then show ?thesis by (simp only: power_int_minus power_int_of_nat) (simp add: field_simps)
  qed
  show ?thesis unfolding e p1 p2 using xlo xhi by simp
qed

lemma double_exponent_le:
  assumes "\<bar>x\<bar> < 2 ^ 53"
  shows "double_exponent x \<le> 52"
proof (cases "1 \<le> \<bar>x\<bar>")
  case True
  let ?n = "nat \<lfloor>\<bar>x\<bar>\<rfloor>"
  have n: "0 < ?n" using True by simp
  from ilog2_bounds [OF n] have "2 ^ ilog2 ?n \<le> ?n" by simp
  moreover have "?n < 2 ^ 53"
  proof -
    have "\<lfloor>\<bar>x\<bar>\<rfloor> < 2 ^ 53" using assms by (simp add: floor_less_iff)
    then show ?thesis by (simp add: nat_less_iff)
  qed
  ultimately have "(2::nat) ^ ilog2 ?n < 2 ^ 53" by linarith
  then have "ilog2 ?n < 53" by (rule power_less_imp_less_exp [rotated]) simp
  then show ?thesis using True by (simp add: double_exponent_def)
next
  case False
  then show ?thesis by (simp add: double_exponent_def)
qed

lemma round_even_ge: "real_of_int k \<le> m \<Longrightarrow> k \<le> round_even m"
proof -
  assume "real_of_int k \<le> m"
  then have "k \<le> \<lfloor>m\<rfloor>" by (simp add: le_floor_iff)
  then show ?thesis by (simp add: round_even_def Let_def)
qed

lemma round_even_le: "m \<le> real_of_int k \<Longrightarrow> round_even m \<le> k"
proof (cases "m = real_of_int k")
  case True
  then show ?thesis by (simp add: round_even_def Let_def)
next
  case False
  assume "m \<le> real_of_int k"
  with False have "m < real_of_int k" by simp
  then have "\<lfloor>m\<rfloor> < k" by (simp add: floor_less_iff)
  then have "\<lfloor>m\<rfloor> + 1 \<le> k" by simp
  then show ?thesis by (simp add: round_even_def Let_def)
qed

lemma double_round_between:
  assumes "\<bar>x\<bar> < 2 ^ 53"
  shows "\<lfloor>x\<rfloor> \<le> \<lfloor>double_round x\<rfloor> \<and> \<lfloor>double_round x\<rfloor> \<le> \<lceil>x\<rceil>"
proof -
  define p where "p = nat (52 - double_exponent x)"
  have q: "0 \<le> 52 - double_exponent x" using double_exponent_le [OF assms] by simp
  then have d: "double_round x = real_of_int (round_even (x * 2 ^ p)) / 2 ^ p"
    by (simp add: double_round_def Let_def p_def)
  have "real_of_int (\<lfloor>x\<rfloor> * 2 ^ p) \<le> x * 2 ^ p" by (simp add: mult_right_mono)
  then have "\<lfloor>x\<rfloor> * 2 ^ p \<le> round_even (x * 2 ^ p)" by (rule round_even_ge)
  then have "real_of_int (\<lfloor>x\<rfloor> * 2 ^ p) \<le> real_of_int (round_even (x * 2 ^ p))" by linarith
  then have lo: "real_of_int \<lfloor>x\<rfloor> \<le> double_round x" by (simp add: d field_simps)
  have "x * 2 ^ p \<le> real_of_int (\<lceil>x\<rceil> * 2 ^ p)" by (simp add: mult_right_mono)
  then have "round_even (x * 2 ^ p) \<le> \<lceil>x\<rceil> * 2 ^ p" by (rule round_even_le)
  then have "real_of_int (round_even (x * 2 ^ p)) \<le> real_of_int (\<lceil>x\<rceil> * 2 ^ p)" by linarith
  then have hi: "double_round x \<le> real_of_int \<lceil>x\<rceil>" by (simp add: d field_simps)
  show ?thesis using lo hi by (simp add: le_floor_iff floor_le_iff)
qed

lemma uint_volume_dword:
  assumes "0 \<le> volume" "volume \<le> 1"
  shows "uint (volume_dword volume) = \<lfloor>double_mul 65535 volume\<rfloor> \<and>
         \<lfloor>65535 * volume\<rfloor> \<le> uint (volume_dword volume) \<and>
         uint (volume_dword volume) \<le> \<lceil>65535 * volume\<rceil>"
proof -
  let ?x = "65535 * volume"
  have r: "0 \<le> ?x" "?x \<le> 65535" using assms by simp_all
  then have "\<bar>?x\<bar> < 2 ^ 53" by simp
  from double_round_between [OF this]
  have b: "\<lfloor>?x\<rfloor> \<le> \<lfloor>double_round ?x\<rfloor>" "\<lfloor>double_round ?x\<rfloor> \<le> \<lceil>?x\<rceil>" by simp_all
  have "0 \<le> \<lfloor>?x\<rfloor>" using r by simp
  moreover have "\<lceil>?x\<rceil> \<le> 65535" using r by (simp add: ceiling_le_iff)
  ultimately have "0 \<le> \<lfloor>double_round ?x\<rfloor>" "\<lfloor>double_round ?x\<rfloor> \<le> 65535"
    using b by linarith+
  moreover have "(65535::int) < 2 ^ 32" by simp
  ultimately have "0 \<le> \<lfloor>double_round ?x\<rfloor>" "\<lfloor>double_round ?x\<rfloor> < 2 ^ 32"
    by linarith+
  then have "uint (volume_dword volume) = \<lfloor>double_mul 65535 volume\<rfloor>"
    by (simp add: volume_dword_def double_mul_def uint_word_of_int_eq take_bit_int_eq_self)
  then show ?thesis using b by (simp add: double_mul_def)
qed

lemma volume_dword_values:
  "volume_dword 0 = 0" "volume_dword 1 = 65535" "volume_dword (1 / 2) = 32767"
  "volume_dword (1 / 4) = 16383"
  "volume_dword (6004799503160661 / 18014398509481984) = 21845"
  by (simp_all add: volume_dword_def double_mul_def double_round_def double_exponent_def
      ilog2.simps round_even_def Let_def)

text \<open>
  C8, as amended. \<open>SetVolume\<close> throws (an invalid-argument error) exactly when the
  volume is below 0 or above 1; the bounds 0 and 1 are accepted. On success the volume
  is stored and the running flag and the producer thread are untouched. With the device
  handle open, the one call made on the device sets its volume, both halves of the word
  to the level \<open>0xFFFF * volume\<close> (the product of doubles, fraction dropped), which lies
  between the integers next to \<open>65535 * volume\<close>, is 0 for volume 0 and 65535 for volume
  1. With no device handle (after \<open>Destroy\<close>) no call is made on the device.
\<close>

theorem SetVolume_range:
  "(fst (SetVolume volume st) \<noteq> None \<longleftrightarrow> volume < 0 \<or> volume > 1) \<and>
   (volume < 0 \<or> volume > 1 \<longrightarrow>
      fst (SetVolume volume st) = Some (InvalidArgument ''Volume must be between 0.0 and 1.0'')) \<and>
   fst (SetVolume 0 st) = None \<and> fst (SetVolume 1 st) = None \<and>
   (0 \<le> volume \<and> volume \<le> 1 \<longrightarrow>
      audioVolume (snd (SetVolume volume st)) = volume \<and>
      playing (snd (SetVolume volume st)) = playing st \<and>
      metronomeThread (snd (SetVolume volume st)) = metronomeThread st \<and>
      (hWaveOut st \<longrightarrow>
         deviceCalls (snd (SetVolume volume st))
         = deviceCalls st
           @ [WaveOutSetVolume (volume_dword volume OR push_bit 16 (volume_dword volume))]) \<and>
      (\<not> hWaveOut st \<longrightarrow> deviceCalls (snd (SetVolume volume st)) = deviceCalls st) \<and>
      uint (volume_dword volume) = \<lfloor>double_round (65535 * volume)\<rfloor> \<and>
      \<lfloor>65535 * volume\<rfloor> \<le> uint (volume_dword volume) \<and>
      uint (volume_dword volume) \<le> \<lceil>65535 * volume\<rceil>) \<and>
   volume_dword 0 = 0 \<and> volume_dword 1 = 65535"
proof -
  have level: "0 \<le> volume \<and> volume \<le> 1 \<longrightarrow>
        uint (volume_dword volume) = \<lfloor>double_round (65535 * volume)\<rfloor> \<and>
        \<lfloor>65535 * volume\<rfloor> \<le> uint (volume_dword volume) \<and>
        uint (volume_dword volume) \<le> \<lceil>65535 * volume\<rceil>"
  proof (intro impI, elim conjE)
    assume "0 \<le> volume" "volume \<le> 1"
    from uint_volume_dword [OF this] show
      "uint (volume_dword volume) = \<lfloor>double_round (65535 * volume)\<rfloor> \<and>
       \<lfloor>65535 * volume\<rfloor> \<le> uint (volume_dword volume) \<and>
       uint (volume_dword volume) \<le> \<lceil>65535 * volume\<rceil>"
      by (simp add: double_mul_def)
  qed
  have call: "(fst (SetVolume volume st) \<noteq> None \<longleftrightarrow> volume < 0 \<or> volume > 1) \<and>
     (volume < 0 \<or> volume > 1 \<longrightarrow>
        fst (SetVolume volume st) = Some (InvalidArgument ''Volume must be between 0.0 and 1.0'')) \<and>
     fst (SetVolume 0 st) = None \<and> fst (SetVolume 1 st) = None \<and>
     (0 \<le> volume \<and> volume \<le> 1 \<longrightarrow>
        audioVolume (snd (SetVolume volume st)) = volume \<and>
        playing (snd (SetVolume volume st)) = playing st \<and>
        metronomeThread (snd (SetVolume volume st)) = metronomeThread st \<and>
        (hWaveOut st \<longrightarrow>
           deviceCalls (snd (SetVolume volume st))
           = deviceCalls st
             @ [WaveOutSetVolume (volume_dword volume OR push_bit 16 (volume_dword volume))]) \<and>
        (\<not> hWaveOut st \<longrightarrow> deviceCalls (snd (SetVolume volume st)) = deviceCalls st))"
    by (simp add: SetVolume_def Let_def)
  show ?thesis
    using level call volume_dword_values(1,2) by blast
qed

text \<open>
  The witness: the volumes \<open>-0.1\<close> and \<open>1.5\<close> are rejected, 0 and 1 accepted; the
  double nearest to one third, \<open>6004799503160661 / 2^54\<close>, is stored and sent as level
  21845 in both halves (the exact product is just below 21845 and rounds to it).
\<close>

theorem SetVolume_range_witness:
  "fst (SetVolume (- (1 / 10)) example_engine)
     = Some (InvalidArgument ''Volume must be between 0.0 and 1.0'') \<and>
   fst (SetVolume (3 / 2) example_engine)
     = Some (InvalidArgument ''Volume must be between 0.0 and 1.0'') \<and>
   fst (SetVolume 0 example_engine) = None \<and> fst (SetVolume 1 example_engine) = None \<and>
   audioVolume (snd (SetVolume (6004799503160661 / 18014398509481984) example_engine))
     = 6004799503160661 / 18014398509481984 \<and>
   playing (snd (SetVolume (6004799503160661 / 18014398509481984) example_engine))
     = playing example_engine \<and>
   hWaveOut example_engine \<and>
   deviceCalls (snd (SetVolume (6004799503160661 / 18014398509481984) example_engine))
     = [WaveOutSetVolume 2147450879, WaveOutSetVolume 1431655765] \<and>
   \<lfloor>65535 * (6004799503160661 / 18014398509481984 :: real)\<rfloor> = 21844 \<and>
   uint (volume_dword (6004799503160661 / 18014398509481984)) = 21845"
proof -
  have d: "deviceCalls example_engine = [WaveOutSetVolume 2147450879]" "hWaveOut example_engine"
    by (simp_all add: example_engine_def)
  have v: "(21845 :: dword) OR push_bit 16 21845 = 1431655765"
    by simp
  show ?thesis
    using SetVolume_range [of "- (1 / 10)" example_engine]
      SetVolume_range [of "3 / 2" example_engine]
      SetVolume_range [of "6004799503160661 / 18014398509481984" example_engine] d v
    by (simp add: volume_dword_values)
qed

text \<open>
  After \<open>Destroy\<close> the handle is null: \<open>SetVolume\<close> succeeds and stores the volume,
  and no call reaches the device, where the claim as stated has the volume applied to
  the output device on every success.
\<close>

theorem SetVolume_without_device:
  "hWaveOut (Destroy example_engine) = False \<and>
   fst (SetVolume (1 / 4) (Destroy example_engine)) = None \<and>
   audioVolume (snd (SetVolume (1 / 4) (Destroy example_engine))) = 1 / 4 \<and>
   deviceCalls (snd (SetVolume (1 / 4) (Destroy example_engine)))
     = deviceCalls (Destroy example_engine) \<and>
   deviceCalls (Destroy example_engine) = [WaveOutSetVolume 2147450879, WaveOutClose]"
  by (simp add: SetVolume_def Destroy_def Stop_def example_engine_def Let_def)

text \<open>
  C10. When \<open>SetVolume\<close> throws, the engine is exactly as before the call: neither
  the stored volume nor the device has been touched.
\<close>

theorem SetVolume_fails_atomically:
  "volume < 0 \<or> volume > 1 \<Longrightarrow> snd (SetVolume volume st) = st"
  by (simp add: SetVolume_def)

theorem SetVolume_fails_atomically_witness:
  "(3 / 2 :: real) > 1 \<and> snd (SetVolume (3 / 2) example_engine) = example_engine \<and>
   (- (1 / 10) :: real) < 0 \<and> snd (SetVolume (- (1 / 10)) example_engine) = example_engine"
  using SetVolume_fails_atomically [of "3 / 2" example_engine] SetVolume_fails_atomically [of "- (1 / 10)" example_engine] by simp

subsection \<open>The bar buffer\<close>

lemma copy_n_slot:
  assumes "0 \<le> bl"
  shows "copy_n sound (min bl (int (length sound))) (P @ replicate (nat bl + r) 0) (int (length P))
         = Inr (P @ beat_slot bl sound @ replicate r 0)"
proof (cases "min bl (int (length sound)) \<le> 0")
  case True
  then have "nat bl = 0 \<or> sound = []" using assms by (auto simp: min_def split: if_splits)
  then show ?thesis using True
    by (auto simp: copy_n_def beat_slot_def replicate_add)
next
  case False
  define c where "c = nat (min bl (int (length sound)))"
  have c: "c = min (nat bl) (length sound)" using assms by (auto simp: c_def min_def)
  have t: "take c sound = take (nat bl) sound" by (simp add: c min_def)
  have d: "drop (length P + c) (P @ replicate (nat bl + r) (0::sample))
           = replicate (nat bl - length sound) 0 @ replicate r 0"
  proof -
    have e: "nat bl + r - c = (nat bl - length sound) + r" by (auto simp: c min_def)
    have "drop (length P + c) (P @ replicate N (0::sample)) = replicate (N - c) 0" for N
      by simp
    then have "drop (length P + c) (P @ replicate (nat bl + r) (0::sample))
               = replicate (nat bl + r - c) 0" .
    also have "\<dots> = replicate (nat bl - length sound) 0 @ replicate r 0"
      unfolding e by (rule replicate_add)
    finally show ?thesis .
  qed
  have n: "nat (int (length P) + min bl (int (length sound))) = length P + c"
    using assms by (simp add: c_def nat_add_distrib)
  have le: "\<not> int (length (P @ replicate (nat bl + r) (0::sample)))
              < int (length P) + min bl (int (length sound))"
    using assms by (simp add: min_def)
  have "copy_n sound (min bl (int (length sound))) (P @ replicate (nat bl + r) 0) (int (length P))
        = Inr (take (length P) (P @ replicate (nat bl + r) 0) @ take c sound
               @ drop (length P + c) (P @ replicate (nat bl + r) 0))"
    unfolding copy_n_def using False le by (simp add: n c_def)
  also have "\<dots> = Inr (P @ beat_slot bl sound @ replicate r 0)"
    unfolding d t by (simp add: beat_slot_def)
  finally show ?thesis .
qed

lemma generateBuffer_loop_slots:
  assumes "0 \<le> bl"
  shows "0 \<le> i \<Longrightarrow> i \<le> beats \<Longrightarrow> int (length P) = i * bl \<Longrightarrow>
     generateBuffer_loop st bl beats i (P @ replicate (nat ((beats - i) * bl)) 0)
     = Inr (P @ bar_slots (accentedSound st) (mainSound st) bl (nat i) (nat beats))"
proof (induction "nat (beats - i)" arbitrary: i P)
  case 0
  then have "i = beats" by simp
  then show ?case by (subst generateBuffer_loop.simps) (simp add: bar_slots_def)
next
  case (Suc n)
  then have lt: "i < beats" by simp
  let ?sound = "if i = 0 then accentedSound st else mainSound st"
  have src: "beat_source (accentedSound st) (mainSound st) (nat i) = ?sound" using Suc.prems by (auto simp: beat_source_def)
  have split: "nat ((beats - i) * bl) = nat bl + nat ((beats - (i + 1)) * bl)"
  proof -
    have "(beats - i) * bl = bl + (beats - (i + 1)) * bl" by (simp add: algebra_simps)
    moreover have "0 \<le> (beats - (i + 1)) * bl" using lt assms by simp
    ultimately show ?thesis using assms by (simp add: nat_add_distrib)
  qed
  have step: "copy_n ?sound (min bl (int (length ?sound)))
                (P @ replicate (nat ((beats - i) * bl)) 0) (i * bl)
              = Inr ((P @ beat_slot bl ?sound) @ replicate (nat ((beats - (i + 1)) * bl)) 0)"
    using copy_n_slot[OF assms, of ?sound P "nat ((beats - (i + 1)) * bl)"] Suc.prems(3)
    by (simp only: split append_assoc)
  have len: "int (length (P @ beat_slot bl ?sound)) = (i + 1) * bl"
    using Suc.prems(3) assms by (simp add: beat_slot_def algebra_simps min_def)
  have IH: "generateBuffer_loop st bl beats (i + 1)
              ((P @ beat_slot bl ?sound) @ replicate (nat ((beats - (i + 1)) * bl)) 0)
            = Inr ((P @ beat_slot bl ?sound) @ bar_slots (accentedSound st) (mainSound st) bl (nat (i + 1)) (nat beats))"
    using Suc.hyps(1)[of "i + 1" "P @ beat_slot bl ?sound"] Suc.hyps(2) Suc.prems lt len
    by simp
  have upt: "[nat i..<nat beats] = nat i # [nat (i + 1)..<nat beats]"
    using lt Suc.prems(1) by (simp add: upt_conv_Cons nat_add_distrib)
  have "generateBuffer_loop st bl beats i (P @ replicate (nat ((beats - i) * bl)) 0)
        = generateBuffer_loop st bl beats (i + 1)
              ((P @ beat_slot bl ?sound) @ replicate (nat ((beats - (i + 1)) * bl)) 0)"
    using lt step by (subst generateBuffer_loop.simps) (simp add: Let_def)
  also note IH
  finally show ?case by (simp add: bar_slots_def upt src)
qed


lemma trunc_div_nonneg: "0 \<le> a \<Longrightarrow> 0 < b \<Longrightarrow> trunc_div a b = a div b"
  by (cases "a = 0") (simp_all add: trunc_div_def)

lemma trunc_div_floor:
  "0 \<le> a \<Longrightarrow> 0 < b \<Longrightarrow> trunc_div a b = \<lfloor>real_of_int a / real_of_int b\<rfloor>"
  by (simp add: trunc_div_nonneg floor_divide_of_int_eq)

lemma length_beat_slot: "0 \<le> bl \<Longrightarrow> length (beat_slot bl sound) = nat bl"
  by (simp add: beat_slot_def min_def)

lemma length_bar_slots: "0 \<le> bl \<Longrightarrow> length (bar_slots acc mn bl i n) = nat bl * (n - i)"
proof (induction n)
  case 0
  then show ?case by (simp add: bar_slots_def)
next
  case (Suc n)
  then show ?case
    by (cases "i \<le> n") (simp_all add: bar_slots_def length_beat_slot Suc_diff_le)
qed

lemma bar_slots_split:
  "i \<le> k \<Longrightarrow> k < n \<Longrightarrow>
   bar_slots acc mn bl i n
   = bar_slots acc mn bl i k @ beat_slot bl (beat_source acc mn k) @ bar_slots acc mn bl (Suc k) n"
proof -
  assume a: "i \<le> k" "k < n"
  then have "[i..<n] = [i..<k] @ k # [Suc k..<n]"
    by (metis upt_add_eq_append le_add_diff_inverse less_imp_le_nat upt_conv_Cons)
  then show ?thesis by (simp add: bar_slots_def)
qed

lemma slot_of_bar_slots:
  assumes "0 \<le> bl" "k < n"
  shows "take (nat bl) (drop (k * nat bl) (bar_slots acc mn bl 0 n)) = beat_slot bl (beat_source acc mn k)"
proof -
  have l: "length (bar_slots acc mn bl 0 k) = k * nat bl"
    using assms by (simp add: length_bar_slots)
  show ?thesis
    using assms by (simp add: bar_slots_split[of 0 k n] l length_beat_slot)
qed

lemma generateBuffer_bar:
  assumes "audioBpm st \<noteq> 0" "2 \<le> audioTimeSignature st"
    and "bl = trunc_div (sampleRate st * 60) (audioBpm st)"
    and "0 \<le> bl" "bl * audioTimeSignature st \<le> INT_MAX"
  shows "generateBuffer st
         = Inr (bar_slots (accentedSound st) (mainSound st) bl 0 (nat (audioTimeSignature st)), st\<lparr>beatLength := bl\<rparr>)"
proof -
  let ?ts = "audioTimeSignature st"
  have "bl * 1 \<le> bl * ?ts" using assms(2,4) by (intro mult_left_mono) simp_all
  then have "bl \<le> INT_MAX" using assms(5) by simp
  then have q: "double_quot_to_int (sampleRate st * 60) (audioBpm st) = Inr bl"
    using assms(1,4) by (simp add: double_quot_to_int_def INT_MIN_def assms(3)[symmetric])
  have nn: "0 \<le> bl * ?ts" using assms(2,4) by simp
  then have m: "int_mul bl ?ts = Inr (bl * ?ts)"
    using assms(5) by (simp add: int_mul_def INT_MIN_def)
  have mx: "max 1 ?ts = ?ts" using assms(2) by simp
  have r: "resize (bl * ?ts) = Inr (replicate (nat (bl * ?ts)) 0)"
    using nn by (simp add: resize_def)
  have "generateBuffer_loop st bl ?ts 0 ([] @ replicate (nat ((?ts - 0) * bl)) 0)
        = Inr ([] @ bar_slots (accentedSound st) (mainSound st) bl (nat 0) (nat ?ts))"
    using assms by (intro generateBuffer_loop_slots) simp_all
  then have l: "generateBuffer_loop st bl ?ts 0 (replicate (nat (bl * ?ts)) 0)
        = Inr (bar_slots (accentedSound st) (mainSound st) bl 0 (nat ?ts))"
    by (simp add: mult.commute)
  show ?thesis
    using assms(2) by (simp add: generateBuffer_def q mx m r l Let_def)
qed

lemma generateBuffer_single:
  assumes "audioBpm st \<noteq> 0" "audioTimeSignature st < 2"
    and "bl = trunc_div (sampleRate st * 60) (audioBpm st)"
    and "0 \<le> bl" "bl \<le> INT_MAX"
  shows "generateBuffer st = Inr (beat_slot bl (mainSound st), st\<lparr>beatLength := bl\<rparr>)"
proof -
  have q: "double_quot_to_int (sampleRate st * 60) (audioBpm st) = Inr bl"
    using assms(1,4,5) by (simp add: double_quot_to_int_def INT_MIN_def assms(3)[symmetric])
  have r: "resize bl = Inr (replicate (nat bl) 0)"
    using assms(4) by (simp add: resize_def)
  have "copy_n (mainSound st) (min bl (int (length (mainSound st)))) ([] @ replicate (nat bl + 0) 0)
          (int (length ([]::sample list)))
        = Inr ([] @ beat_slot bl (mainSound st) @ replicate 0 0)"
    using assms(4) by (rule copy_n_slot)
  then have c: "copy_n (mainSound st) (min bl (int (length (mainSound st)))) (replicate (nat bl) 0) 0
        = Inr (beat_slot bl (mainSound st))"
    by simp
  show ?thesis
    using assms(2) by (simp add: generateBuffer_def q r c)
qed

text \<open>
  C1, as amended. For a tempo above 0, at least two beats per bar, a sample rate that is
  not negative and a bar length \<open>beatLen * beatsPerBar\<close> within the range of \<open>int\<close>,
  \<open>generateBuffer\<close> returns a buffer of \<open>beatLen * beatsPerBar\<close> samples and sets
  \<open>beatLength\<close> to \<open>beatLen\<close>. The slot of beat \<open>i\<close> is the waveform of that beat
  (the accent for \<open>i = 0\<close>, the main sound otherwise) cut to \<open>beatLen\<close> samples and
  followed by zeros up to \<open>beatLen\<close>: nothing reaches into the next slot.
\<close>

theorem generateBuffer_builds_bar:
  assumes "0 < audioBpm st" and "2 \<le> audioTimeSignature st"
    and "beatLen = trunc_div (sampleRate st * 60) (audioBpm st)"
    and "0 \<le> sampleRate st" and "beatLen * audioTimeSignature st \<le> INT_MAX"
  shows "\<exists>bufferBar. generateBuffer st = Inr (bufferBar, st\<lparr>beatLength := beatLen\<rparr>) \<and>
      int (length bufferBar) = beatLen * audioTimeSignature st \<and>
      (\<forall>i < nat (audioTimeSignature st).
         take (nat beatLen) (drop (i * nat beatLen) bufferBar)
         = take (nat beatLen) (if i = 0 then accentedSound st else mainSound st)
           @ replicate (nat beatLen - length (if i = 0 then accentedSound st else mainSound st)) 0)"
proof -
  have nn: "0 \<le> beatLen" using assms by (simp add: trunc_div_nonneg pos_imp_zdiv_nonneg_iff)
  have g: "generateBuffer st
      = Inr (bar_slots (accentedSound st) (mainSound st) beatLen 0 (nat (audioTimeSignature st)), st\<lparr>beatLength := beatLen\<rparr>)"
    using assms nn by (intro generateBuffer_bar) simp_all
  have len: "int (length (bar_slots (accentedSound st) (mainSound st) beatLen 0 (nat (audioTimeSignature st))))
             = beatLen * audioTimeSignature st"
    using nn assms(2) by (simp add: length_bar_slots)
  have slot: "take (nat beatLen) (drop (i * nat beatLen) (bar_slots (accentedSound st) (mainSound st) beatLen 0 (nat (audioTimeSignature st))))
         = take (nat beatLen) (if i = 0 then accentedSound st else mainSound st)
           @ replicate (nat beatLen - length (if i = 0 then accentedSound st else mainSound st)) 0"
    if "i < nat (audioTimeSignature st)" for i
    using slot_of_bar_slots[OF nn that, of "accentedSound st" "mainSound st"] by (simp add: beat_slot_def beat_source_def)
  show ?thesis using g len slot by blast
qed

theorem generateBuffer_builds_bar_witness:
  "0 < audioBpm small_engine \<and> 2 \<le> audioTimeSignature small_engine \<and>
   0 \<le> sampleRate small_engine \<and>
   (\<exists>bufferBar. generateBuffer small_engine = Inr (bufferBar, small_engine\<lparr>beatLength := 2\<rparr>) \<and>
      int (length bufferBar) = 4 \<and>
      take 2 (drop 0 bufferBar) = [3, 4] \<and> take 2 (drop 2 bufferBar) = [1, 0])"
proof -
  have h: "0 < audioBpm small_engine" "2 \<le> audioTimeSignature small_engine"
    "2 = trunc_div (sampleRate small_engine * 60) (audioBpm small_engine)"
    "0 \<le> sampleRate small_engine" "2 * audioTimeSignature small_engine \<le> INT_MAX"
    by (simp_all add: small_engine_def trunc_div_def INT_MAX_def)
  from generateBuffer_builds_bar [OF h] obtain bufferBar where
    g: "generateBuffer small_engine = Inr (bufferBar, small_engine\<lparr>beatLength := 2\<rparr>)"
    and l: "int (length bufferBar) = 2 * audioTimeSignature small_engine"
    and s: "\<forall>i < nat (audioTimeSignature small_engine).
         take (nat 2) (drop (i * nat 2) bufferBar)
         = take (nat 2) (if i = 0 then accentedSound small_engine else mainSound small_engine)
           @ replicate (nat 2 - length (if i = 0 then accentedSound small_engine
                                        else mainSound small_engine)) 0"
    by blast
  have s0: "take 2 (drop 0 bufferBar) = [3, 4]"
    using s [rule_format, of 0] by (simp add: small_engine_def)
  have s1: "take 2 (drop 2 bufferBar) = [1, 0]"
    using s [rule_format, of 1] by (simp add: small_engine_def numeral_2_eq_2)
  show ?thesis using h(1,2,4) g l s0 s1 by (simp add: small_engine_def)
qed

text \<open>
  Outside that range no buffer is built: at one beat per minute and 1000 beats per bar
  the bar length \<open>2646000 * 1000\<close> overflows \<open>int\<close>, and a negative sample rate makes
  \<open>resize\<close> throw.
\<close>

theorem generateBuffer_bar_out_of_range:
  "generateBuffer (example_engine\<lparr>audioBpm := 1, audioTimeSignature := 1000\<rparr>) = Inl Undefined \<and>
   generateBuffer (example_engine\<lparr>sampleRate := - 44100\<rparr>) = Inl LengthError"
  by (simp add: generateBuffer_def example_engine_def double_quot_to_int_def trunc_div_def
      int_mul_def resize_def INT_MAX_def INT_MIN_def)

text \<open>
  C2, as amended. For a tempo above 0 and a sample rate that is not negative, the beat
  length that \<open>generateBuffer\<close> computes is the real quotient \<open>sampleRate * 60 / bpm\<close>
  with its fraction dropped (not rounded to the nearest integer), provided the bar
  length fits \<open>int\<close>; with fewer than two beats per bar the buffer has exactly that
  length.
\<close>

theorem generateBuffer_beat_length_truncates:
  assumes "0 < audioBpm st" and "0 \<le> sampleRate st"
    and "beatLen = \<lfloor>real_of_int (sampleRate st) * 60 / real_of_int (audioBpm st)\<rfloor>"
    and "beatLen * max 1 (audioTimeSignature st) \<le> INT_MAX"
  shows "\<exists>bufferBar. generateBuffer st = Inr (bufferBar, st\<lparr>beatLength := beatLen\<rparr>) \<and>
           (audioTimeSignature st < 2 \<longrightarrow> int (length bufferBar) = beatLen)"
proof -
  have b: "beatLen = trunc_div (sampleRate st * 60) (audioBpm st)"
    using assms(1,2,3) trunc_div_floor [of "sampleRate st * 60" "audioBpm st"] by simp
  then have nn: "0 \<le> beatLen"
    using assms(1,2) by (simp add: trunc_div_nonneg pos_imp_zdiv_nonneg_iff)
  show ?thesis
  proof (cases "audioTimeSignature st < 2")
    case True
    then have "max 1 (audioTimeSignature st) = 1" by simp
    then have "beatLen \<le> INT_MAX" using assms(4) by simp
    then have "generateBuffer st
               = Inr (beat_slot beatLen (mainSound st), st\<lparr>beatLength := beatLen\<rparr>)"
      using assms(1) True b nn by (intro generateBuffer_single) simp_all
    then show ?thesis using nn by (simp add: length_beat_slot)
  next
    case False
    then have "max 1 (audioTimeSignature st) = audioTimeSignature st" by simp
    then have "beatLen * audioTimeSignature st \<le> INT_MAX" using assms(4) by simp
    then have "generateBuffer st
               = Inr (bar_slots (accentedSound st) (mainSound st) beatLen 0
                        (nat (audioTimeSignature st)), st\<lparr>beatLength := beatLen\<rparr>)"
      using assms(1) False b nn by (intro generateBuffer_bar) simp_all
    then show ?thesis using False by simp
  qed
qed

theorem generateBuffer_beat_length_truncates_witness:
  "0 < audioBpm (example_engine\<lparr>audioBpm := 130, audioTimeSignature := 1\<rparr>) \<and>
   (\<exists>bufferBar. generateBuffer (example_engine\<lparr>audioBpm := 130, audioTimeSignature := 1\<rparr>)
        = Inr (bufferBar, example_engine\<lparr>audioBpm := 130, audioTimeSignature := 1, beatLength := 20353\<rparr>) \<and>
      int (length bufferBar) = 20353)"
  using generateBuffer_beat_length_truncates [of "example_engine\<lparr>audioBpm := 130, audioTimeSignature := 1\<rparr>" 20353]
  by (simp add: example_engine_def INT_MAX_def)

text \<open>
  At 44100 samples per second and 130 beats per minute the quotient is 20353.84...: the
  beat length and the buffer length are 20353, the nearest integer is 20354.
\<close>

theorem generateBuffer_beat_length_not_rounded:
  "generateBuffer (example_engine\<lparr>audioBpm := 130, audioTimeSignature := 1\<rparr>)
   = Inr (beat_slot 20353 [1],
          example_engine\<lparr>audioBpm := 130, audioTimeSignature := 1, beatLength := 20353\<rparr>) \<and>
   length (beat_slot 20353 [1]) = 20353 \<and>
   round (real_of_int 44100 * 60 / real_of_int 130) = 20354"
proof -
  let ?st = "example_engine\<lparr>audioBpm := 130, audioTimeSignature := 1\<rparr>"
  have "generateBuffer ?st = Inr (beat_slot 20353 (mainSound ?st), ?st\<lparr>beatLength := 20353\<rparr>)"
    by (rule generateBuffer_single) (simp_all add: example_engine_def trunc_div_def INT_MAX_def)
  moreover have "length (beat_slot 20353 [1]) = 20353" by (simp add: length_beat_slot)
  moreover have "round (real_of_int 44100 * 60 / real_of_int 130) = 20354" by (simp add: round_def)
  ultimately show ?thesis by (simp add: example_engine_def)
qed

subsection \<open>The example engine\<close>

lemma Metronome_example:
  "Metronome [1, 0] [2, 0] 120 4 (1 / 2) 44100 MMSYSERR_NOERROR = Inr example_engine"
proof -
  let ?st = "\<lparr>audioBpm = 120, audioTimeSignature = 4,
                audioVolume = 1 / 2, sampleRate = 44100,
                mainSound = [1], accentedSound = [2], audioBuffer = [],
                beatLength = 0, writeCursor = 0, playCursor = 0, currentTick = 0,
                playing = False, hWaveOut = False, eventTickSink = False,
                metronomeThread = False, spawned = 0,
                deviceCalls = [], notified = []\<rparr>"
  let ?st1 = "\<lparr>audioBpm = 120, audioTimeSignature = 4,
                audioVolume = 1 / 2, sampleRate = 44100,
                mainSound = [1], accentedSound = [2], audioBuffer = [],
                beatLength = 0, writeCursor = 0, playCursor = 0, currentTick = 0,
                playing = False, hWaveOut = True, eventTickSink = False,
                metronomeThread = False, spawned = 0,
                deviceCalls = [WaveOutSetVolume 2147450879], notified = []\<rparr>"
  have b: "byteArrayToShortArray [1, 0] = Inr [1]" "byteArrayToShortArray [2, 0] = Inr [2]"
    by (simp_all add: byteArrayToShortArray_def)
  have i: "InitializeAudio MMSYSERR_NOERROR ?st = (None, ?st1)"
    by (simp add: InitializeAudio_def int_mul_def INT_MAX_def INT_MIN_def SetVolume_def
        volume_dword_values)
  have "generateBuffer ?st1
           = Inr (bar_slots (accentedSound ?st1) (mainSound ?st1) 22050 0 (nat (audioTimeSignature ?st1)),
                  ?st1\<lparr>beatLength := 22050\<rparr>)"
    by (rule generateBuffer_bar) (simp_all add: trunc_div_def INT_MAX_def)
  then have g: "generateBuffer ?st1 = Inr (bar_slots [2] [1] 22050 0 4, ?st1\<lparr>beatLength := 22050\<rparr>)"
    by simp
  show ?thesis
    by (simp add: Metronome_def b i g example_engine_def)
qed

lemma Play_stopped:
  assumes "\<not> playing st" "\<not> metronomeThread st" "hWaveOut st"
    and "audioBpm st \<noteq> 0" "2 \<le> audioTimeSignature st"
    and "bl = trunc_div (sampleRate st * 60) (audioBpm st)"
    and "0 \<le> bl" "bl * audioTimeSignature st \<le> INT_MAX"
  shows "Play st = (None, st\<lparr>playing := True, beatLength := bl,
            audioBuffer := bar_slots (accentedSound st) (mainSound st) bl 0 (nat (audioTimeSignature st)),
            deviceCalls := deviceCalls st @ [WaveOutRestart],
            metronomeThread := True, spawned := Suc (spawned st)\<rparr>)"
proof -
  let ?st1 = "st\<lparr>playing := True\<rparr>"
  have "generateBuffer ?st1
        = Inr (bar_slots (accentedSound ?st1) (mainSound ?st1) bl 0 (nat (audioTimeSignature ?st1)),
               ?st1\<lparr>beatLength := bl\<rparr>)"
    using assms by (intro generateBuffer_bar) simp_all
  then show ?thesis using assms(1,2,3) by (simp add: Play_def)
qed

lemma Play_example:
  "Play (EnableTickCallback sink example_engine)
   = (None, example_engine\<lparr>eventTickSink := sink, playing := True,
       deviceCalls := [WaveOutSetVolume 2147450879, WaveOutRestart],
       metronomeThread := True, spawned := 1\<rparr>)"
  by (subst Play_stopped [where bl = 22050])
    (simp_all add: EnableTickCallback_def example_engine_def trunc_div_def INT_MAX_def)

lemma started_engine_eq:
  "started_engine sink
   = example_engine\<lparr>eventTickSink := sink, playing := True,
       deviceCalls := [WaveOutSetVolume 2147450879, WaveOutRestart],
       metronomeThread := True, spawned := 1\<rparr>"
  by (simp add: started_engine_def Play_example)

lemma example_buffer:
  "length (bar_slots [2] [1] 22050 0 4) = 88200"
  "take 22050 (bar_slots [2] [1] 22050 0 4) = beat_slot 22050 [2]"
  "take 22050 (drop 22050 (bar_slots [2] [1] 22050 0 4)) = beat_slot 22050 [1]"
proof -
  show "length (bar_slots [2] [1] 22050 0 4) = 88200"
    by (simp add: length_bar_slots)
  have "take (nat 22050) (drop (0 * nat 22050) (bar_slots [2] [1] 22050 0 4))
        = beat_slot 22050 (beat_source [2] [1] 0)"
    by (rule slot_of_bar_slots) simp_all
  then show "take 22050 (bar_slots [2] [1] 22050 0 4) = beat_slot 22050 [2]"
    by (simp add: beat_source_def)
  have "take (nat 22050) (drop (1 * nat 22050) (bar_slots [2] [1] 22050 0 4))
        = beat_slot 22050 (beat_source [2] [1] 1)"
    by (rule slot_of_bar_slots) simp_all
  then show "take 22050 (drop 22050 (bar_slots [2] [1] 22050 0 4)) = beat_slot 22050 [1]"
    by (simp add: beat_source_def)
qed

lemma example_buffer_nonempty: "bar_slots [2] [1] 22050 0 4 \<noteq> []"
  using example_buffer(1) by auto

subsection \<open>Fragment completions\<close>

lemma generateBuffer_state:
  "generateBuffer st = Inr (bufferBar, st') \<Longrightarrow> \<exists>bl. st' = st\<lparr>beatLength := bl\<rparr>"
  by (auto simp: generateBuffer_def split: sum.splits)

lemma Play_fields:
  "currentTick (snd (Play st)) = currentTick st"
  "audioTimeSignature (snd (Play st)) = audioTimeSignature st"
  "playing (snd (Play st))"
  "eventTickSink (snd (Play st)) = eventTickSink st"
  by (auto simp: Play_def Let_def split: sum.splits prod.splits dest!: generateBuffer_state)

lemma WaveOutProc_done:
  "playing st \<Longrightarrow> WaveOutProc WOM_DONE st = OnBufferDone st"
  by (simp add: WaveOutProc_def)

lemma OnBufferDone_fields:
  "playing (OnBufferDone st) = playing st"
  "eventTickSink (OnBufferDone st) = eventTickSink st"
  "audioTimeSignature (OnBufferDone st) = audioTimeSignature st"
  "beatLength (OnBufferDone st) = beatLength st"
  "playCursor (OnBufferDone st) = playCursor st + beatLength st"
  "writeCursor (OnBufferDone st) = writeCursor st"
  by (simp_all add: OnBufferDone_def Let_def)

lemma OnBufferDone_tick:
  "currentTick (OnBufferDone st)
   = (if eventTickSink st
      then (if audioTimeSignature st < 2 then 0
            else if audioTimeSignature st \<le> currentTick st + 1 then 0 else currentTick st + 1)
      else currentTick st)"
  by (simp add: OnBufferDone_def Let_def)

lemma OnBufferDone_notified:
  "notified (OnBufferDone st)
   = (if eventTickSink st then notified st @ [currentTick (OnBufferDone st)] else notified st)"
  by (simp add: OnBufferDone_def Let_def)

lemma completions_fields:
  "playing st \<Longrightarrow>
   playing (completions n st) \<and>
   eventTickSink (completions n st) = eventTickSink st \<and>
   audioTimeSignature (completions n st) = audioTimeSignature st \<and>
   beatLength (completions n st) = beatLength st \<and>
   writeCursor (completions n st) = writeCursor st \<and>
   playCursor (completions n st) = playCursor st + int n * beatLength st"
proof (induction n arbitrary: st)
  case 0
  then show ?case by simp
next
  case (Suc n)
  have "playing (OnBufferDone st)" using Suc.prems by (simp add: OnBufferDone_fields)
  from Suc.IH [OF this] show ?case
    using Suc.prems by (simp add: WaveOutProc_done OnBufferDone_fields algebra_simps)
qed

lemma wrap_mod:
  "0 \<le> c \<Longrightarrow> c < ts \<Longrightarrow> (if ts \<le> c + 1 then 0 else c + 1) = (c + 1) mod (ts::int)"
proof (cases "ts \<le> c + 1")
  case True
  assume "0 \<le> c" "c < ts"
  with True have "c + 1 = ts" by simp
  then show ?thesis by simp
next
  case False
  assume "0 \<le> c" "c < ts"
  with False show ?thesis by simp
qed

lemma completions_ticks:
  assumes "playing st" "eventTickSink st" "2 \<le> audioTimeSignature st"
    and "0 \<le> currentTick st" "currentTick st < audioTimeSignature st"
  shows "notified (completions n st)
         = notified st @ map (\<lambda>k. (currentTick st + int k + 1) mod audioTimeSignature st) [0..<n]
       \<and> currentTick (completions n st) = (currentTick st + int n) mod audioTimeSignature st"
  using assms
proof (induction n arbitrary: st)
  case 0
  then show ?case by simp
next
  case (Suc n)
  let ?st' = "OnBufferDone st"
  let ?ts = "audioTimeSignature st"
  have t: "currentTick ?st' = (currentTick st + 1) mod ?ts"
    using Suc.prems wrap_mod [of "currentTick st" ?ts] by (simp add: OnBufferDone_tick)
  have p: "playing ?st'" "eventTickSink ?st'" "2 \<le> audioTimeSignature ?st'"
    "0 \<le> currentTick ?st'" "currentTick ?st' < audioTimeSignature ?st'"
    using Suc.prems by (simp_all add: OnBufferDone_fields t)
  have m: "((currentTick st + 1) mod ?ts + x) mod ?ts = (currentTick st + (1 + x)) mod ?ts" for x
    by (simp add: mod_add_left_eq add.assoc)
  have u: "map f [0..<Suc n] = f 0 # map (\<lambda>k. f (Suc k)) [0..<n]" for f :: "nat \<Rightarrow> int"
  proof -
    have "[0..<Suc n] = 0 # [Suc 0..<Suc n]" by (rule upt_conv_Cons) simp
    also have "\<dots> = 0 # map Suc [0..<n]" by (simp only: map_Suc_upt)
    finally show ?thesis by (simp add: o_def del: upt_Suc)
  qed
  from Suc.IH [OF p] show ?case
    using Suc.prems(1,2)
    by (simp add: WaveOutProc_done OnBufferDone_fields OnBufferDone_notified t m u
        add.assoc del: upt_Suc)
qed

lemma completions_no_sink:
  "playing st \<Longrightarrow> \<not> eventTickSink st \<Longrightarrow>
   currentTick (completions n st) = currentTick st \<and> notified (completions n st) = notified st"
proof (induction n arbitrary: st)
  case 0
  then show ?case by simp
next
  case (Suc n)
  have "playing (OnBufferDone st)" "\<not> eventTickSink (OnBufferDone st)"
    using Suc.prems by (simp_all add: OnBufferDone_fields)
  from Suc.IH [OF this] show ?case
    using Suc.prems by (simp add: WaveOutProc_done OnBufferDone_tick OnBufferDone_notified)
qed

lemma started_fields:
  "playing (started_engine sink)" "eventTickSink (started_engine sink) = sink"
  "audioTimeSignature (started_engine sink) = 4" "currentTick (started_engine sink) = 0"
  "beatLength (started_engine sink) = 22050" "playCursor (started_engine sink) = 0"
  "writeCursor (started_engine sink) = 0" "notified (started_engine sink) = []"
  "audioBuffer (started_engine sink) = bar_slots [2] [1] 22050 0 4"
  by (simp_all add: started_engine_eq example_engine_def)

lemma restarted_fields:
  "playing restarted_engine" "eventTickSink restarted_engine"
  "audioTimeSignature restarted_engine = 3" "currentTick restarted_engine = 3"
proof -
  let ?st = "completions 3 (started_engine True)"
  have t: "currentTick ?st
           = (currentTick (started_engine True) + int 3) mod audioTimeSignature (started_engine True)"
    by (rule completions_ticks [THEN conjunct2]) (simp_all add: started_fields)
  have f: "playing ?st" "audioTimeSignature ?st = 4" "eventTickSink ?st"
    using completions_fields [of "started_engine True" 3] by (simp_all add: started_fields)
  have c: "currentTick ?st = 3" using t by (simp add: started_fields)
  have s: "\<not> playing (Stop ?st)" "currentTick (Stop ?st) = 3" "audioTimeSignature (Stop ?st) = 4"
    "eventTickSink (Stop ?st)"
    using f c by (simp_all add: Stop_def Let_def)
  let ?st' = "snd (SetTimeSignature 3 (Stop ?st))"
  have u: "currentTick ?st' = 3" "audioTimeSignature ?st' = 3" "eventTickSink ?st'"
    using s by (simp_all add: SetTimeSignature_def IsPlaying_def Let_def)
  show "playing restarted_engine" "eventTickSink restarted_engine"
    "audioTimeSignature restarted_engine = 3" "currentTick restarted_engine = 3"
    using u by (simp_all add: restarted_engine_def Play_fields)
qed

text \<open>
  C3, as amended. On a fragment completion while the engine is playing, the completion
  handler adds \<open>beatLength\<close> to \<open>playCursor\<close> whether or not a tick sink is
  registered. The beat index is updated only when a sink is registered: to 0 when the
  time signature is below 2, otherwise it is incremented and set to 0 once it reaches
  the number of beats per bar, which for an index within the bar is
  \<open>(currentTick + 1) mod beatsPerBar\<close>; the new index is then delivered to the sink.
  Without a sink the index and the sink's history stay as they are. For the engine
  constructed with 120 beats per minute, 4 beats per bar and 44100 samples per second,
  \<open>Play\<close> succeeds with a beat length of 22050 and a bar of 88200 samples, and after
  four completions the beat index is 0 and \<open>playCursor\<close> is 88200, with a sink and
  without.
\<close>

theorem OnBufferDone_advances:
  "playing st \<Longrightarrow>
     playCursor (WaveOutProc WOM_DONE st) = playCursor st + beatLength st \<and>
     (eventTickSink st \<longrightarrow>
        currentTick (WaveOutProc WOM_DONE st)
        = (if audioTimeSignature st < 2 then 0
           else if audioTimeSignature st \<le> currentTick st + 1 then 0
           else currentTick st + 1)) \<and>
     (eventTickSink st \<and> 2 \<le> audioTimeSignature st \<and>
      0 \<le> currentTick st \<and> currentTick st < audioTimeSignature st \<longrightarrow>
        currentTick (WaveOutProc WOM_DONE st) = (currentTick st + 1) mod audioTimeSignature st) \<and>
     (eventTickSink st \<longrightarrow>
        notified (WaveOutProc WOM_DONE st) = notified st @ [currentTick (WaveOutProc WOM_DONE st)]) \<and>
     (\<not> eventTickSink st \<longrightarrow>
        currentTick (WaveOutProc WOM_DONE st) = currentTick st \<and>
        notified (WaveOutProc WOM_DONE st) = notified st) \<and>
     Metronome [1, 0] [2, 0] 120 4 (1 / 2) 44100 MMSYSERR_NOERROR = Inr example_engine \<and>
     (\<forall>sink. fst (Play (EnableTickCallback sink example_engine)) = None \<and>
        beatLength (started_engine sink) = 22050 \<and>
        length (audioBuffer (started_engine sink)) = 88200 \<and>
        currentTick (completions 4 (started_engine sink)) = 0 \<and>
        playCursor (completions 4 (started_engine sink)) = 88200)"
proof -
  assume p: "playing st"
  have scen: "currentTick (completions 4 (started_engine sink)) = 0 \<and>
        playCursor (completions 4 (started_engine sink)) = 88200" for sink
  proof (cases sink)
    case True
    have "currentTick (completions 4 (started_engine True))
          = (currentTick (started_engine True) + int 4) mod audioTimeSignature (started_engine True)"
      by (rule completions_ticks [THEN conjunct2]) (simp_all add: started_fields)
    then show ?thesis
      using True completions_fields [of "started_engine True" 4] by (simp add: started_fields)
  next
    case False
    then show ?thesis
      using completions_no_sink [of "started_engine False" 4]
        completions_fields [of "started_engine False" 4]
      by (simp add: started_fields)
  qed
  show ?thesis
    using p wrap_mod [of "currentTick st" "audioTimeSignature st"] scen
    by (simp add: WaveOutProc_done OnBufferDone_fields OnBufferDone_tick OnBufferDone_notified
        Metronome_example Play_example started_fields example_buffer)
qed

text \<open>
  The witness: the started engine with a sink, and the restarted engine, whose index 3
  has reached its three beats per bar and goes to 0.
\<close>

theorem OnBufferDone_advances_witness:
  "playing (started_engine True) \<and> eventTickSink (started_engine True) \<and>
   playCursor (WaveOutProc WOM_DONE (started_engine True)) = 22050 \<and>
   currentTick (WaveOutProc WOM_DONE (started_engine True)) = 1 \<and>
   notified (WaveOutProc WOM_DONE (started_engine True)) = [1] \<and>
   currentTick (completions 4 (started_engine True)) = 0 \<and>
   playCursor (completions 4 (started_engine True)) = 88200 \<and>
   playing restarted_engine \<and> eventTickSink restarted_engine \<and>
   currentTick (WaveOutProc WOM_DONE restarted_engine) = 0"
  using OnBufferDone_advances [of "started_engine True"] OnBufferDone_advances [of restarted_engine]
  by (simp add: started_fields restarted_fields)

text \<open>
  Without a sink the beat index does not move: after one completion of the started
  four-beat engine it is still 0, where the claim as stated gives \<open>(0 + 1) mod 4 = 1\<close>.
  And an index is not always within the bar: on the restarted engine, with a sink, it
  is 3 at three beats per bar, and the completion sets it to 0, where the claim as
  stated gives \<open>(3 + 1) mod 3 = 1\<close>.
\<close>

theorem OnBufferDone_without_sink:
  "playing (started_engine False) \<and> eventTickSink (started_engine False) = False \<and>
   audioTimeSignature (started_engine False) = 4 \<and>
   currentTick (started_engine False) = 0 \<and>
   currentTick (WaveOutProc WOM_DONE (started_engine False)) = 0 \<and>
   (currentTick (started_engine False) + 1) mod audioTimeSignature (started_engine False) = 1 \<and>
   playing restarted_engine \<and> eventTickSink restarted_engine \<and>
   audioTimeSignature restarted_engine = 3 \<and> currentTick restarted_engine = 3 \<and>
   currentTick (WaveOutProc WOM_DONE restarted_engine) = 0 \<and>
   (currentTick restarted_engine + 1) mod audioTimeSignature restarted_engine = 1"
  by (simp add: started_fields restarted_fields WaveOutProc_done OnBufferDone_tick)

text \<open>
  C4, as amended. With a sink registered, at least two beats per bar (four in
  particular) and the beat index at 0 as \<open>Play\<close> on a fresh engine leaves it, the
  indices delivered over \<open>n\<close> successive completions are
  \<open>1 mod b, 2 mod b, \<dots>, n mod b\<close> for \<open>b\<close> beats per bar, that is
  1, 2, 3, 0, 1, 2, 3, 0, ... for four beats: the first notification carries 1, and each
  one follows its predecessor by one, modulo the bar.
\<close>

theorem tick_sequence:
  assumes "playing st" and "eventTickSink st" and "2 \<le> audioTimeSignature st"
    and "currentTick st = 0"
  shows "notified (completions n st)
         = notified st @ map (\<lambda>k. (int k + 1) mod audioTimeSignature st) [0..<n]"
  using completions_ticks [of st n] assms by simp

theorem tick_sequence_witness:
  "playing (started_engine True) \<and> eventTickSink (started_engine True) \<and>
   audioTimeSignature (started_engine True) = 4 \<and> currentTick (started_engine True) = 0 \<and>
   notified (completions 9 (started_engine True)) = [1, 2, 3, 0, 1, 2, 3, 0, 1]"
  using tick_sequence [of "started_engine True" 9] by (simp add: started_fields upt_conv_Cons)

text \<open>
  The first notification of the started four-beat engine carries 1, not 0, and the
  first bar of notifications is 1, 2, 3, 0.
\<close>

theorem tick_sequence_starts_at_one:
  "notified (completions 1 (started_engine True)) = [1] \<and>
   notified (completions 4 (started_engine True)) = [1, 2, 3, 0]"
  using completions_ticks [of "started_engine True" 1] completions_ticks [of "started_engine True" 4]
  by (simp add: started_fields upt_conv_Cons)

subsection \<open>Play, Pause and Stop\<close>

text \<open>
  C7. \<open>Play\<close> on a playing engine changes nothing (no buffer rebuilt, no device call,
  no thread started) and throws nothing; \<open>Stop\<close> and \<open>Pause\<close> on a stopped engine
  change nothing. After any \<open>Play\<close> the running flag is set, so a second \<open>Play\<close> in
  a row leaves the state of the first.
\<close>

theorem Play_Stop_Pause_idempotent:
  "(playing st \<longrightarrow> Play st = (None, st)) \<and>
   (\<not> playing st \<longrightarrow> Stop st = st \<and> Pause st = st) \<and>
   playing (snd (Play st)) \<and>
   Play (snd (Play st)) = (None, snd (Play st))"
proof -
  have a: "playing st \<Longrightarrow> Play st = (None, st)" for st by (simp add: Play_def)
  have b: "playing (snd (Play st))"
    by (auto simp: Play_def Let_def split: sum.splits prod.splits dest!: generateBuffer_state)
  show ?thesis using a [of st] a [OF b] b by (simp add: Stop_def Pause_def)
qed

theorem Play_Stop_Pause_idempotent_witness:
  "playing (started_engine True) \<and>
   Play (started_engine True) = (None, started_engine True) \<and>
   spawned (snd (Play (started_engine True))) = 1 \<and>
   \<not> playing example_engine \<and>
   Stop example_engine = example_engine \<and> Pause example_engine = example_engine \<and>
   Play (snd (Play example_engine)) = (None, snd (Play example_engine))"
  using Play_Stop_Pause_idempotent [of "started_engine True"] Play_Stop_Pause_idempotent [of example_engine]
  by (simp add: started_fields) (simp add: started_engine_eq example_engine_def)

lemma PlaySound_started:
  "PlaySound True True (started_engine sink)
   = (None, (started_engine sink)\<lparr>writeCursor := 22050,
        deviceCalls := [WaveOutSetVolume 2147450879, WaveOutRestart,
                        WaveOutWrite (beat_slot 22050 [2])]\<rparr>)"
  by (simp add: PlaySound_def IsPlaying_def started_fields example_buffer
      example_buffer_nonempty Let_def)
    (simp add: started_engine_eq example_engine_def)

lemma played_engine_eq:
  "played_engine
   = example_engine\<lparr>eventTickSink := True, playing := True,
       deviceCalls := [WaveOutSetVolume 2147450879, WaveOutRestart, WaveOutWrite (beat_slot 22050 [2])],
       metronomeThread := True, spawned := 1,
       writeCursor := 22050, playCursor := 22050, currentTick := 1, notified := [1]\<rparr>"
  unfolding played_engine_def PlaySound_started
  by (simp add: started_engine_eq WaveOutProc_def OnBufferDone_def Let_def example_engine_def)

text \<open>
  C5 on the code. The claim: every transition into the stopped or paused state resets
  \<open>writeCursor\<close>, \<open>playCursor\<close> and \<open>currentTick\<close> to 0, so that \<open>Play\<close> after
  \<open>Stop\<close> starts at offset 0 of the bar. \<open>Pause\<close> does so; \<open>Stop\<close> does not. On the
  example engine, after \<open>Play\<close>, one fragment submitted and completed, \<open>Stop\<close> leaves
  the cursors at 22050 and the beat index at 1, and the first fragment that the
  producer submits after the next \<open>Play\<close> is the second slot of the bar (the main
  sound), not the accent; after \<open>Pause\<close> it is the accent.
\<close>

theorem Stop_keeps_cursors:
  "\<not> playing (Stop played_engine) \<and>
   writeCursor (Stop played_engine) = 22050 \<and>
   playCursor (Stop played_engine) = 22050 \<and>
   currentTick (Stop played_engine) = 1 \<and>
   writeCursor (Pause played_engine) = 0 \<and>
   playCursor (Pause played_engine) = 0 \<and>
   currentTick (Pause played_engine) = 0 \<and>
   fst (Play (Stop played_engine)) = None \<and>
   audioBuffer (snd (Play (Stop played_engine))) = bar_slots [2] [1] 22050 0 4 \<and>
   last (deviceCalls (snd (PlaySound True True (snd (Play (Stop played_engine))))))
     = WaveOutWrite (beat_slot 22050 [1]) \<and>
   last (deviceCalls (snd (PlaySound True True (snd (Play (Pause played_engine))))))
     = WaveOutWrite (beat_slot 22050 [2])"
proof -
  let ?calls = "[WaveOutSetVolume 2147450879, WaveOutRestart, WaveOutWrite (beat_slot 22050 [2])]"
  have s: "Stop played_engine
     = example_engine\<lparr>eventTickSink := True, playing := False,
       deviceCalls := ?calls @ [WaveOutReset],
       metronomeThread := False, spawned := 1,
       writeCursor := 22050, playCursor := 22050, currentTick := 1, notified := [1]\<rparr>"
    by (simp add: played_engine_eq Stop_def Let_def example_engine_def)
  have p: "Pause played_engine
     = example_engine\<lparr>eventTickSink := True, playing := False,
       deviceCalls := ?calls @ [WaveOutBreakLoop],
       metronomeThread := False, spawned := 1,
       writeCursor := 0, playCursor := 0, currentTick := 0, notified := [1]\<rparr>"
    by (simp add: played_engine_eq Pause_def Let_def example_engine_def)
  have ps: "Play (Stop played_engine)
     = (None, example_engine\<lparr>eventTickSink := True, playing := True,
       deviceCalls := ?calls @ [WaveOutReset, WaveOutRestart],
       metronomeThread := True, spawned := 2,
       writeCursor := 22050, playCursor := 22050, currentTick := 1, notified := [1]\<rparr>)"
    unfolding s
    by (subst Play_stopped [where bl = 22050])
      (simp_all add: example_engine_def trunc_div_def INT_MAX_def)
  have pp: "Play (Pause played_engine)
     = (None, example_engine\<lparr>eventTickSink := True, playing := True,
       deviceCalls := ?calls @ [WaveOutBreakLoop, WaveOutRestart],
       metronomeThread := True, spawned := 2,
       writeCursor := 0, playCursor := 0, currentTick := 0, notified := [1]\<rparr>)"
    unfolding p
    by (subst Play_stopped [where bl = 22050])
      (simp_all add: example_engine_def trunc_div_def INT_MAX_def)
  have f1: "last (deviceCalls (snd (PlaySound True True (snd (Play (Stop played_engine))))))
     = WaveOutWrite (beat_slot 22050 [1])"
    unfolding ps
    by (simp add: PlaySound_def IsPlaying_def example_engine_def example_buffer
        example_buffer_nonempty Let_def)
  have f2: "last (deviceCalls (snd (PlaySound True True (snd (Play (Pause played_engine))))))
     = WaveOutWrite (beat_slot 22050 [2])"
    unfolding pp
    by (simp add: PlaySound_def IsPlaying_def example_engine_def example_buffer
        example_buffer_nonempty Let_def)
  show ?thesis
    unfolding f1 f2 unfolding ps unfolding s p by (simp add: example_engine_def)
qed

subsection \<open>The beat index across the operations\<close>

text \<open>
  Construction establishes \<open>tick_in_range\<close>, and every operation other than \<open>Stop\<close>
  (and \<open>Destroy\<close>, which calls it) keeps it.
\<close>

lemma tick_in_range_Play: "tick_in_range st \<Longrightarrow> tick_in_range (snd (Play st))"
  by (simp add: tick_in_range_def Play_fields)

lemma Pause_fields:
  "playing st \<Longrightarrow> currentTick (Pause st) = 0"
  "audioTimeSignature (Pause st) = audioTimeSignature st"
  "\<not> playing (Pause st)"
  by (simp_all add: Pause_def Let_def)

lemma tick_in_range_Pause: "tick_in_range st \<Longrightarrow> tick_in_range (Pause st)"
  by (cases "playing st") (simp_all add: tick_in_range_def Pause_fields, simp add: Pause_def)

lemma tick_in_range_zero:
  "currentTick st = 0 \<Longrightarrow> tick_in_range st"
  by (simp add: tick_in_range_def)

lemma tick_in_range_SetTimeSignature:
  "tick_in_range st \<Longrightarrow> tick_in_range (snd (SetTimeSignature timeSignature st))"
proof (cases "playing st")
  case True
  assume "tick_in_range st"
  show ?thesis
    using True
    by (auto simp: SetTimeSignature_def IsPlaying_def Let_def Play_fields Pause_fields \<open>tick_in_range st\<close>
        intro!: tick_in_range_zero)
next
  case False
  assume "tick_in_range st"
  then show ?thesis
    using False by (auto simp: SetTimeSignature_def IsPlaying_def Let_def tick_in_range_def)
qed

lemma tick_in_range_SetBPM:
  "tick_in_range st \<Longrightarrow> tick_in_range (snd (SetBPM bpm st))"
proof (cases "playing st")
  case True
  assume "tick_in_range st"
  show ?thesis
    using True
    by (auto simp: SetBPM_def IsPlaying_def Let_def Play_fields Pause_fields \<open>tick_in_range st\<close>
        intro!: tick_in_range_zero)
next
  case False
  assume "tick_in_range st"
  then show ?thesis
    using False by (auto simp: SetBPM_def IsPlaying_def Let_def tick_in_range_def)
qed

lemma tick_in_range_sounds:
  "tick_in_range (st\<lparr>mainSound := s\<rparr>) = tick_in_range st"
  "tick_in_range (st\<lparr>accentedSound := s\<rparr>) = tick_in_range st"
  by (simp_all add: tick_in_range_def)

lemma tick_in_range_SetAudioFile:
  assumes "tick_in_range st"
  shows "tick_in_range (snd (SetAudioFile mainFileBytes accentedFileBytes st))"
proof -
  have p: "tick_in_range (Pause st)" using assms by (rule tick_in_range_Pause)
  show ?thesis
    by (cases "byteArrayToShortArray mainFileBytes";
        cases "byteArrayToShortArray accentedFileBytes"; cases "playing st")
      (simp_all add: SetAudioFile_def IsPlaying_def Let_def assms p tick_in_range_sounds
        tick_in_range_Play)
qed

lemma tick_in_range_SetVolume:
  "tick_in_range st \<Longrightarrow> tick_in_range (snd (SetVolume volume st))"
  by (simp add: SetVolume_def Let_def tick_in_range_def)

lemma tick_in_range_EnableTickCallback:
  "tick_in_range st \<Longrightarrow> tick_in_range (EnableTickCallback eventSink st)"
  by (simp add: EnableTickCallback_def tick_in_range_def)

lemma tick_in_range_WaveOutProc:
  "tick_in_range st \<Longrightarrow> tick_in_range (WaveOutProc uMsg st)"
  by (auto simp: WaveOutProc_def tick_in_range_def OnBufferDone_fields OnBufferDone_tick)

lemma tick_in_range_PlaySound:
  "tick_in_range st \<Longrightarrow> tick_in_range (snd (PlaySound prepared written st))"
  by (simp add: PlaySound_def Let_def tick_in_range_def)

lemma tick_in_range_Metronome:
  "Metronome mainFileBytes accentedFileBytes bpm timeSignature volume rate result = Inr st \<Longrightarrow>
   tick_in_range st"
  by (auto simp: Metronome_def InitializeAudio_def SetVolume_def Let_def tick_in_range_def
      split: sum.splits if_splits prod.splits option.splits dest!: generateBuffer_state)

text \<open>
  C6 on the code. The claim: in every reachable state the beat index is below the
  number of beats per bar, and 0 for a signature below 2. After three completions of the
  started four-beat engine the index is 3; \<open>Stop\<close> keeps it, and
  \<open>SetTimeSignature\<close> on the stopped engine stores the new signature without
  touching the index: with signature 2, or 1, the index is 3. After \<open>Pause\<close> in
  place of \<open>Stop\<close> the index is 0.
\<close>

theorem Stop_breaks_tick_range:
  "playing (completions 3 (started_engine True)) \<and>
   currentTick (completions 3 (started_engine True)) = 3 \<and>
   audioTimeSignature (snd (SetTimeSignature 2 (Stop (completions 3 (started_engine True))))) = 2 \<and>
   currentTick (snd (SetTimeSignature 2 (Stop (completions 3 (started_engine True))))) = 3 \<and>
   audioTimeSignature (snd (SetTimeSignature 1 (Stop (completions 3 (started_engine True))))) = 1 \<and>
   currentTick (snd (SetTimeSignature 1 (Stop (completions 3 (started_engine True))))) = 3 \<and>
   currentTick (snd (SetTimeSignature 2 (Pause (completions 3 (started_engine True))))) = 0"
proof -
  let ?st = "completions 3 (started_engine True)"
  have t: "currentTick ?st = (currentTick (started_engine True) + int 3) mod audioTimeSignature (started_engine True)"
    by (rule completions_ticks [THEN conjunct2]) (simp_all add: started_fields)
  have f: "playing ?st" "audioTimeSignature ?st = 4"
    using completions_fields [of "started_engine True" 3] by (simp_all add: started_fields)
  have c: "currentTick ?st = 3" using t by (simp add: started_fields)
  have s: "\<not> playing (Stop ?st)" "currentTick (Stop ?st) = 3" "audioTimeSignature (Stop ?st) = 4"
    using f c by (simp_all add: Stop_def Let_def)
  have p: "\<not> playing (Pause ?st)" "currentTick (Pause ?st) = 0" "audioTimeSignature (Pause ?st) = 4"
    using f c by (simp_all add: Pause_def Let_def)
  show ?thesis
    using f c s p by (simp add: SetTimeSignature_def IsPlaying_def Let_def)
qed

end
